theory Spec2Isabelle
  imports Main "HOL-Library.Sublist"
begin

section \<open>Common types\<close>

text \<open>
  Errors raised by the modelled code. The messages of the source
  (\<^verbatim>\<open>DataScience.insecureSessionDenied()\<close>, \<^verbatim>\<open>'Password request not allowed.'\<close>,
  \<^verbatim>\<open>DataScience.passwordFailure()\<close>) are constructors; every other failure of a
  collaborator is \<open>OtherError\<close> with its message.
\<close>

datatype error =
    SessionDisposedError
  | InsecureSessionDenied
  | PasswordRequestNotAllowed
  | PasswordFailure
  | OtherError string

section \<open>Data model\<close>

text \<open>
  A kernel spec as the server reports it (\<^verbatim>\<open>KernelSpec.ISpecModel\<close>), and the
  \<^verbatim>\<open>JupyterKernelSpec\<close> built from it (jupyterKernelSpec.ts). The Uri that
  \<^verbatim>\<open>Uri.file(p)\<close> builds is \<open>UriFile p\<close>; what the library makes of the path is
  not looked into.
\<close>

datatype Uri = UriFile string

record ISpecModel =
  spec_name :: string
  spec_language :: string
  spec_display_name :: string
  spec_argv :: "string list"
  spec_env :: "(string \<times> string) list option"
  spec_interrupt_mode :: "string option"
  spec_metadata :: "string option"

record IJupyterKernelSpec =
  name :: string
  language :: string
  spec_uri :: Uri
  env :: "(string \<times> string) list option"
  display_name :: string
  argv :: "string list"
  interrupt_mode :: "string option"
  spec_meta :: "string option"

definition JupyterKernelSpec :: "ISpecModel \<Rightarrow> IJupyterKernelSpec" where
  "JupyterKernelSpec specModel =
     \<lparr> name = spec_name specModel,
       language = spec_language specModel,
       spec_uri = (if length (spec_argv specModel) > 0 then UriFile (hd (spec_argv specModel))
                   else UriFile []),
       env = spec_env specModel,
       display_name = spec_display_name specModel,
       argv = spec_argv specModel,
       interrupt_mode = spec_interrupt_mode specModel,
       spec_meta = spec_metadata specModel \<rparr>"

text \<open>
  A date is its time value in milliseconds, \<open>None\<close> for an invalid date.
  \<^verbatim>\<open>Date.parse\<close>, \<^verbatim>\<open>parseInt(_, 10)\<close> and \<^verbatim>\<open>new Date()\<close> belong to the JavaScript
  runtime and are given; \<open>None\<close> from \<open>parseInt10\<close> is NaN.
\<close>

type_synonym Date = "int option"

record Runtime =
  dateParse :: "string \<Rightarrow> Date"
  parseInt10 :: "string \<Rightarrow> int option"
  newDate :: Date

text \<open>
  A running kernel as the server lists it (\<^verbatim>\<open>Kernel.IModel\<close> read as a JSON
  object). For \<^verbatim>\<open>last_activity\<close> and \<^verbatim>\<open>connections\<close>, \<open>Some t\<close> is a truthy value
  whose \<^verbatim>\<open>toString()\<close> is \<open>t\<close>, and \<open>None\<close> a missing or falsy value.
\<close>

record KernelModel =
  km_id :: string
  km_name :: string
  last_activity :: "string option"
  connections :: "string option"

record IJupyterKernel =
  kernel_id :: string
  kernel_name :: string
  lastActivityTime :: Date
  numberOfConnections :: "int option"

text \<open>A session of the server (\<^verbatim>\<open>Session.IModel\<close>); its kernel may be null.\<close>

record SessionModel =
  session_id :: string
  session_path :: string
  session_kernel :: "KernelModel option"

text \<open>
  The model of a live kernel that \<^verbatim>\<open>listKernels\<close> assembles by object spread:
  the fields of the session's kernel, over them those of the matching spec,
  over them those of the active kernel, then the five fields set last.
\<close>

record LiveKernelModel =
  live_id :: string
  live_name :: string
  live_lastActivityTime :: Date
  live_numberOfConnections :: "int option"
  live_model :: SessionModel
  live_spec :: "IJupyterKernelSpec option"

text \<open>
  The tagged union \<^verbatim>\<open>KernelConnectionMetadata\<close>. Every variant carries the stable
  \<^verbatim>\<open>id\<close>. The remote variants carry what \<^verbatim>\<open>listKernels\<close> puts in them; an
  interpreter is the path of its executable.
\<close>

datatype KernelConnectionMetadata =
    StartUsingLocalKernelSpec string
  | StartUsingPythonInterpreter string
  | StartUsingRemoteKernelSpec "string option" IJupyterKernelSpec string string
  | ConnectToLiveRemoteKernel LiveKernelModel string string

fun metadata_id :: "KernelConnectionMetadata \<Rightarrow> string" where
  "metadata_id (StartUsingLocalKernelSpec i) = i"
| "metadata_id (StartUsingPythonInterpreter i) = i"
| "metadata_id (StartUsingRemoteKernelSpec interpreter kernelSpec i baseUrl) = i"
| "metadata_id (ConnectToLiveRemoteKernel kernelModel baseUrl i) = i"

text \<open>
  A connection to a server (\<^verbatim>\<open>IJupyterConnection\<close>, as
  \<^verbatim>\<open>createRemoteConnectionInfo\<close> fills it). \<open>getAuthHeader\<close> is \<open>Some\<close> when the
  accessor is supplied.
\<close>

record IJupyterConnection =
  conn_type :: string
  baseUrl :: string
  token :: string
  hostName :: string
  localLaunch :: bool
  displayName :: string
  rootDirectory :: string
  getAuthHeader :: "string option"

section \<open>ServerCache (serverCache.node.ts)\<close>

text \<open>
  \<^verbatim>\<open>INotebookServerOptions\<close> of \<^verbatim>\<open>kernels/jupyter/types.ts\<close>. Optional fields are
  options; \<^verbatim>\<open>resource\<close> is a Uri or undefined, \<^verbatim>\<open>ui\<close> is kept as the flag it carries.
\<close>

record INotebookServerOptions =
  uri :: "string option"
  resource :: "string option"
  skipUsingDefaultConfig :: "bool option"
  workingDir :: "string option"
  ui :: bool
  localJupyter :: bool

text \<open>
  \<^verbatim>\<open>generateDefaultOptions\<close>. The value awaited from \<^verbatim>\<open>calculateWorkingDirectory\<close>
  (not part of this file of the source) is the first argument. An empty
  \<^verbatim>\<open>workingDir\<close> is falsy in the source, so it is replaced as an absent one is.
\<close>

definition generateDefaultOptions :: "string \<Rightarrow> INotebookServerOptions \<Rightarrow> INotebookServerOptions" where
  "generateDefaultOptions calculatedWorkingDirectory opts =
     \<lparr> uri = uri opts,
       resource = resource opts,
       skipUsingDefaultConfig = skipUsingDefaultConfig opts,
       workingDir =
         (case workingDir opts of
            Some w \<Rightarrow> if w \<noteq> [] then Some w else Some calculatedWorkingDirectory
          | None \<Rightarrow> Some calculatedWorkingDirectory),
       ui = ui opts,
       localJupyter = localJupyter opts \<rparr>"

text \<open>Template-literal rendering of a boolean and of a possibly undefined string.\<close>

definition boolString :: "bool \<Rightarrow> string" where
  "boolString b = (if b then ''true'' else ''false'')"

definition optString :: "string option \<Rightarrow> string" where
  "optString v = (case v of Some w \<Rightarrow> w | None \<Rightarrow> ''undefined'')"

definition generateKey :: "INotebookServerOptions \<Rightarrow> string" where
  "generateKey opts =
     (let uriPart = (case uri opts of Some u \<Rightarrow> (if u \<noteq> [] then u else []) | None \<Rightarrow> []);
          useFlag = (case skipUsingDefaultConfig opts of Some True \<Rightarrow> ''true'' | _ \<Rightarrow> ''false'')
      in ''uri='' @ uriPart @ '';useFlag='' @ useFlag @ '';local='' @ boolString (localJupyter opts)
           @ '';workingDir='' @ optString (workingDir opts))"

text \<open>
  Promises and servers are objects of the JavaScript heap; they are named by
  numbers. A promise is pending until the environment settles it.
\<close>

type_synonym promise_id = nat
type_synonym server_id = nat
type_synonym addr = nat

datatype outcome = Fulfilled "server_id option" | Rejected error

record IServerData =
  options :: INotebookServerOptions
  promise :: promise_id
  resolved :: bool

text \<open>
  The state the cache works on. \<open>cache\<close> is the \<^verbatim>\<open>Map<string, IServerData>\<close>; its
  values are addresses into \<open>objects\<close>, because \<^verbatim>\<open>data.resolved = true\<close> mutates the
  object a caller holds whether or not the map still refers to it.
  \<open>createCalls\<close> logs every invocation of \<^verbatim>\<open>createFunction\<close> with the options it
  received; the promise such an invocation returns is a fresh one, numbered by
  its position in the log. \<open>settled\<close> is the state of the promises and
  \<open>disposeWrappers\<close> the keys that the replaced \<^verbatim>\<open>server.dispose\<close> of a server
  deletes, innermost last.
\<close>

record ServerCache =
  cache :: "string \<Rightarrow> addr option"
  disposed :: bool
  objects :: "IServerData list"
  createCalls :: "INotebookServerOptions list"
  settled :: "promise_id \<Rightarrow> outcome option"
  disposeWrappers :: "server_id \<Rightarrow> string list"
  disposedServers :: "server_id list"

definition newServerCache :: ServerCache where
  "newServerCache =
     \<lparr> cache = (\<lambda>_. None), disposed = False, objects = [], createCalls = [],
       settled = (\<lambda>_. None), disposeWrappers = (\<lambda>_. []), disposedServers = [] \<rparr>"

definition clearCache :: "ServerCache \<Rightarrow> ServerCache" where
  "clearCache s = s\<lparr>cache := (\<lambda>_. None)\<rparr>"

text \<open>
  \<^verbatim>\<open>getOrCreate\<close> is an async function: it runs in turns of the event loop,
  separated by its awaits. Its first turn starts \<^verbatim>\<open>generateDefaultOptions\<close> and
  suspends (line 44) without touching the cache; other turns may run before it
  resumes. The second turn, \<open>getOrCreate_lookup\<close>, is lines 45 to 59: it computes
  the key, reads the cache and, when there is no entry, invokes
  \<^verbatim>\<open>createFunction\<close> with the caller's original options and stores the new entry,
  with no await between the read and the write. It yields the address of
  \<^verbatim>\<open>data\<close>, on whose promise the caller's result is chained.
\<close>

definition getOrCreate_lookup ::
  "INotebookServerOptions \<Rightarrow> INotebookServerOptions \<Rightarrow> ServerCache \<Rightarrow> addr \<times> ServerCache" where
  "getOrCreate_lookup opts fixedOptions s =
     (let key = generateKey fixedOptions in
      case cache s key of
        Some a \<Rightarrow> (a, s)
      | None \<Rightarrow>
          (let p = length (createCalls s);
               a = length (objects s);
               data = \<lparr> options = fixedOptions, promise = p, resolved = False \<rparr>
           in (a, s\<lparr> createCalls := createCalls s @ [opts],
                     objects := objects s @ [data],
                     cache := (cache s)(key \<mapsto> a) \<rparr>)))"

text \<open>
  The environment settles a pending promise that \<^verbatim>\<open>createFunction\<close> has
  returned; a settled one keeps its outcome.
\<close>

definition settle :: "promise_id \<Rightarrow> outcome \<Rightarrow> ServerCache \<Rightarrow> ServerCache" where
  "settle p out s =
     (if p < length (createCalls s) then
        (case settled s p of
           None \<Rightarrow> s\<lparr>settled := (settled s)(p \<mapsto> out)\<rparr>
         | Some _ \<Rightarrow> s)
      else s)"

text \<open>
  The last turn of a call is the reaction chained on \<^verbatim>\<open>data.promise\<close> (lines 61
  to 86), run once that promise is settled: \<open>None\<close> while it is pending. The
  caller's result is \<open>Inr\<close> the server (or undefined) or \<open>Inl\<close> the rethrown error.
\<close>

definition getOrCreate_settled ::
  "string \<Rightarrow> addr \<Rightarrow> ServerCache \<Rightarrow> ((error + server_id option) \<times> ServerCache) option" where
  "getOrCreate_settled key a s =
     (if a < length (objects s) then
        (case settled s (promise (objects s ! a)) of
           None \<Rightarrow> None
         | Some (Fulfilled None) \<Rightarrow> Some (Inr None, s\<lparr>cache := (cache s)(key := None)\<rparr>)
         | Some (Fulfilled (Some server)) \<Rightarrow>
             Some (Inr (Some server),
                   s\<lparr> disposeWrappers := (disposeWrappers s)(server := key # disposeWrappers s server),
                      objects := (objects s)[a := (objects s ! a)\<lparr>resolved := True\<rparr>] \<rparr>)
         | Some (Rejected e) \<Rightarrow> Some (Inl e, s\<lparr>cache := (cache s)(key := None)\<rparr>))
      else None)"

text \<open>
  Disposing a server that went through the cache runs the replaced
  \<^verbatim>\<open>dispose\<close>: each wrapper deletes its key, then the original dispose runs.
  The methods \<^verbatim>\<open>get\<close> and \<^verbatim>\<open>dispose\<close> of the cache itself are not embedded.
\<close>

definition server_dispose :: "server_id \<Rightarrow> ServerCache \<Rightarrow> ServerCache" where
  "server_dispose server s =
     s\<lparr> cache := (\<lambda>k. if k \<in> set (disposeWrappers s server) then None else cache s k),
        disposedServers := disposedServers s @ [server] \<rparr>"

text \<open>
  The turns of the event loop around the cache, and a run of them in order:
  the first turn of a call, in which it is issued and suspends at line 44
  leaving the cache alone; the lookup of a call; the settling of a promise;
  the reaction of a call to its settled promise; the disposal of a server; and
  \<^verbatim>\<open>clearCache\<close>.
\<close>

datatype turn =
    Issue INotebookServerOptions
  | Lookup INotebookServerOptions INotebookServerOptions
  | Settle promise_id outcome
  | Reaction string addr
  | ServerDispose server_id
  | ClearCache

fun runTurn :: "turn \<Rightarrow> ServerCache \<Rightarrow> ServerCache" where
  "runTurn (Issue opts) s = s"
| "runTurn (Lookup opts fixedOptions) s = snd (getOrCreate_lookup opts fixedOptions s)"
| "runTurn (Settle p out) s = settle p out s"
| "runTurn (Reaction key a) s = (case getOrCreate_settled key a s of Some (r, s') \<Rightarrow> s' | None \<Rightarrow> s)"
| "runTurn (ServerDispose server) s = server_dispose server s"
| "runTurn ClearCache s = clearCache s"

fun run :: "turn list \<Rightarrow> ServerCache \<Rightarrow> ServerCache" where
  "run [] s = s"
| "run (t # ts) s = run ts (runTurn t s)"

section \<open>KernelProvider (kernelProvider, web)\<close>

record KernelOptions =
  metadata :: KernelConnectionMetadata
  controller :: string
  resourceUri :: "string option"

text \<open>A notebook document of the workspace; a Uri is the string \<^verbatim>\<open>toString()\<close> gives.\<close>

record NotebookDocument =
  nb_uri :: string
  notebookType :: string

text \<open>The object built by \<^verbatim>\<open>new Kernel(...)\<close>, with the constructor arguments that are data.\<close>

record Kernel =
  kernel_uri :: string
  kernel_resourceUri :: "string option"
  kernelConnectionMetadata :: KernelConnectionMetadata
  waitForIdleTimeout :: nat
  kernel_controller :: string

type_synonym kernel_ref = nat

datatype kernel_event =
    KernelDisposed kernel_ref
  | KernelConstructed kernel_ref
  | KernelRecorded string kernel_ref

text \<open>
  The provider and what it reads of its surroundings. Kernels are objects, named
  by their position in \<open>kernels\<close>, the order of construction.
  \<open>notebookDocuments\<close> is \<^verbatim>\<open>workspace.notebookDocuments\<close>; \<open>jupyterLaunchTimeout\<close>
  is \<^verbatim>\<open>configService.getSettings(resource).jupyterLaunchTimeout\<close>.
  \<open>kernelsByNotebook\<close> and \<open>kernelsByUri\<close> are the two tables of the base class,
  \<open>asyncDisposables\<close> the registry the constructor is given. \<open>trace\<close> records, in
  order, the disposals, constructions and table insertions.
\<close>

record KernelProvider =
  notebookDocuments :: "NotebookDocument list"
  jupyterLaunchTimeout :: "string option \<Rightarrow> nat"
  kernelsByNotebook :: "NotebookDocument \<Rightarrow> (KernelOptions \<times> kernel_ref) option"
  kernelsByUri :: "string \<Rightarrow> (KernelOptions \<times> kernel_ref) option"
  kernels :: "Kernel list"
  disposedKernels :: "kernel_ref set"
  asyncDisposables :: "kernel_ref list"
  disposalWatches :: "(string \<times> kernel_ref) list"
  trace :: "kernel_event list"

definition findNotebook :: "string \<Rightarrow> KernelProvider \<Rightarrow> NotebookDocument option" where
  "findNotebook u s = find (\<lambda>nb. nb_uri nb = u) (notebookDocuments s)"

text \<open>
  Modelled from the spec: \<^verbatim>\<open>BaseKernelProvider.getInternal\<close>, which is not among
  the source files. The spec speaks of the kernel that "already exists for the
  identity"; the identity table is read the way \<^verbatim>\<open>getOrCreate\<close> writes it: by
  the open notebook document of that uri when there is one, by the uri string
  otherwise.
\<close>

definition getInternal :: "string \<Rightarrow> KernelProvider \<Rightarrow> (KernelOptions \<times> kernel_ref) option" where
  "getInternal u s =
     (case findNotebook u s of
        Some nb \<Rightarrow> kernelsByNotebook s nb
      | None \<Rightarrow> kernelsByUri s u)"

text \<open>
  Modelled from the spec: \<^verbatim>\<open>BaseKernelProvider.get\<close>, not among the source files:
  the kernel recorded for the identity, if any.
\<close>

definition get_kernel :: "string \<Rightarrow> KernelProvider \<Rightarrow> kernel_ref option" where
  "get_kernel u s = map_option snd (getInternal u s)"

text \<open>
  Modelled from the spec: \<^verbatim>\<open>BaseKernelProvider.disposeOldKernel\<close>, not among the
  source files. The spec: "dispose the old kernel (if any) before constructing
  the new one". The entry of the identity is taken out of its table and its
  kernel is disposed, which fires the kernel's disposed event.
\<close>

definition disposeOldKernel :: "string \<Rightarrow> KernelProvider \<Rightarrow> KernelProvider" where
  "disposeOldKernel u s =
     (case findNotebook u s of
        Some nb \<Rightarrow>
          (case kernelsByNotebook s nb of
             Some (_, k) \<Rightarrow>
               s\<lparr> kernelsByNotebook := (kernelsByNotebook s)(nb := None),
                  disposedKernels := insert k (disposedKernels s),
                  trace := trace s @ [KernelDisposed k] \<rparr>
           | None \<Rightarrow> s)
      | None \<Rightarrow>
          (case kernelsByUri s u of
             Some (_, k) \<Rightarrow>
               s\<lparr> kernelsByUri := (kernelsByUri s)(u := None),
                  disposedKernels := insert k (disposedKernels s),
                  trace := trace s @ [KernelDisposed k] \<rparr>
           | None \<Rightarrow> s))"

text \<open>
  Modelled from the spec: \<^verbatim>\<open>BaseKernelProvider.deleteMappingIfKernelIsDisposed\<close>,
  not among the source files and not described by the spec. The call is
  recorded; nothing happens until that kernel is disposed.
\<close>

definition deleteMappingIfKernelIsDisposed :: "string \<Rightarrow> kernel_ref \<Rightarrow> KernelProvider \<Rightarrow> KernelProvider" where
  "deleteMappingIfKernelIsDisposed u k s = s\<lparr>disposalWatches := disposalWatches s @ [(u, k)]\<rparr>"

text \<open>
  \<^verbatim>\<open>KernelProvider.getOrCreate\<close>. The constant \<^verbatim>\<open>InteractiveWindowView\<close> of
  \<^verbatim>\<open>notebooks/constants\<close> is the first argument. The subscriptions to the new
  kernel's events only forward them and leave the tables alone. The whole
  function is one turn: it has no await.
\<close>

definition getOrCreate :: "string \<Rightarrow> string \<Rightarrow> KernelOptions \<Rightarrow> KernelProvider \<Rightarrow> kernel_ref \<times> KernelProvider" where
  "getOrCreate InteractiveWindowView u opts s =
     (let existingKernelInfo = getInternal u s;
          notebook = findNotebook u s
      in case (case existingKernelInfo of
                 Some (o', k') \<Rightarrow> if metadata_id (metadata o') = metadata_id (metadata opts) then Some k' else None
               | None \<Rightarrow> None) of
           Some k' \<Rightarrow> (k', s)
         | None \<Rightarrow>
            (let s1 = disposeOldKernel u s;
                 resUri = (case notebook of
                             Some nb \<Rightarrow> if notebookType nb = InteractiveWindowView then resourceUri opts else Some u
                           | None \<Rightarrow> Some u);
                 timeout = jupyterLaunchTimeout s1 resUri;
                 kernel = length (kernels s1);
                 s2 = s1\<lparr> kernels := kernels s1 @
                              [\<lparr> kernel_uri = u, kernel_resourceUri = resUri,
                                 kernelConnectionMetadata = metadata opts,
                                 waitForIdleTimeout = timeout,
                                 kernel_controller = controller opts \<rparr>],
                           trace := trace s1 @ [KernelConstructed kernel] \<rparr>;
                 s3 = s2\<lparr>asyncDisposables := asyncDisposables s2 @ [kernel]\<rparr>;
                 s4 = (case notebook of
                         Some nb \<Rightarrow> s3\<lparr> kernelsByNotebook := (kernelsByNotebook s3)(nb \<mapsto> (opts, kernel)),
                                        trace := trace s3 @ [KernelRecorded u kernel] \<rparr>
                       | None \<Rightarrow> s3\<lparr> kernelsByUri := (kernelsByUri s3)(u \<mapsto> (opts, kernel)),
                                     trace := trace s3 @ [KernelRecorded u kernel] \<rparr>)
             in (kernel, deleteMappingIfKernelIsDisposed u kernel s4)))"

section \<open>JupyterSessionManager (jupyterSessionManager.node.ts)\<close>

subsection \<open>The insecure-connection check\<close>

text \<open>
  What the user picks in the warning: one of the three labels, or nothing.
\<close>

datatype prompt_response = BannerLabelYes | BannerLabelNo | DoNotShowAgain | NoChoice

text \<open>
  The state shared by all managers of the process: the persistent flag
  \<^verbatim>\<open>DataScienceAllowInsecureConnections\<close>, the static map \<^verbatim>\<open>secureServers\<close>, and
  the number of warnings shown so far. A promise stored in the map is awaited
  before the check returns, so a stored entry is the answer it was resolved
  with.
\<close>

record SecurityStore =
  userAllowsInsecureConnections :: bool
  secureServers :: "string \<Rightarrow> bool option"
  warningsShown :: nat

definition insecureServerWarningPrompt :: "prompt_response \<Rightarrow> SecurityStore \<Rightarrow> bool \<times> SecurityStore" where
  "insecureServerWarningPrompt response st =
     (let shown = st\<lparr>warningsShown := Suc (warningsShown st)\<rparr> in
      case response of
        BannerLabelYes \<Rightarrow> (True, shown)
      | DoNotShowAgain \<Rightarrow> (True, shown\<lparr>userAllowsInsecureConnections := True\<rparr>)
      | BannerLabelNo \<Rightarrow> (False, shown)
      | NoChoice \<Rightarrow> (False, shown))"

text \<open>
  \<^verbatim>\<open>secureConnectionCheck\<close>: \<open>None\<close> when the check passes, the error it throws
  otherwise. \<open>response\<close> is the user's answer, used if the warning is shown.
\<close>

definition secureConnectionCheck ::
  "IJupyterConnection \<Rightarrow> prompt_response \<Rightarrow> SecurityStore \<Rightarrow> error option \<times> SecurityStore" where
  "secureConnectionCheck connInfo response st =
     (if userAllowsInsecureConnections st then (None, st)
      else if localLaunch connInfo \<or> prefix ''https'' (baseUrl connInfo) \<or> token connInfo \<noteq> ''null''
        then (None, st)
      else
        (let (serverSecure, st') =
               (case secureServers st (baseUrl connInfo) of
                  Some answer \<Rightarrow> (answer, st)
                | None \<Rightarrow>
                    (let (answer, st1) = insecureServerWarningPrompt response st
                     in (answer, st1\<lparr>secureServers := (secureServers st1)(baseUrl connInfo \<mapsto> answer)\<rparr>)))
         in if \<not> serverSecure then (Some InsecureSessionDenied, st') else (None, st')))"

subsection \<open>Connection settings\<close>

text \<open>\<^verbatim>\<open>String.prototype.replace\<close> with a string pattern: the first occurrence only.\<close>

fun replaceFirst :: "string \<Rightarrow> string \<Rightarrow> string \<Rightarrow> string" where
  "replaceFirst pat rep [] = (if pat = [] then rep else [])"
| "replaceFirst pat rep (c # cs) =
     (if prefix pat (c # cs) then rep @ drop (length pat) (c # cs)
      else c # replaceFirst pat rep cs)"

record IJupyterPasswordConnectInfo =
  requestHeaders :: "(string \<times> string) list option"
  remappedBaseUrl :: "string option"
  remappedToken :: "string option"

record RequestInit =
  init_cache :: string
  init_credentials :: string
  init_headers :: "(string \<times> string) list option"
  init_agent_rejectUnauthorized :: "bool option"

record ServerSettings =
  settings_baseUrl :: string
  appUrl :: string
  wsUrl :: string
  settings_token :: "string option"
  appendToken :: "bool option"
  init :: RequestInit
  webSocket_cookieString :: "string option"
  webSocket_allowUnauthorized :: bool
  webSocket_getAuthHeader :: "string option"
  authorizingRequest :: bool

text \<open>Line 280: no token is specified and there is no authorization header.\<close>

definition noTokenSpecified :: "IJupyterConnection \<Rightarrow> bool" where
  "noTokenSpecified connInfo =
     ((token connInfo = [] \<or> token connInfo = ''null'') \<and> getAuthHeader connInfo = None)"

text \<open>An optional string that is truthy, or else the given value.\<close>

definition orElse :: "string option \<Rightarrow> string \<Rightarrow> string" where
  "orElse v d = (case v of Some t \<Rightarrow> if t \<noteq> [] then t else d | None \<Rightarrow> d)"

text \<open>
  \<^verbatim>\<open>getServerConnectSettings\<close>, up to the settings object handed to
  \<^verbatim>\<open>ServerConnection.makeSettings\<close>. Given: the user's answer to the warning,
  what \<^verbatim>\<open>getPasswordConnectionInfo\<close> comes back with (\<open>Inl\<close> when it rejects),
  and the setting \<^verbatim>\<open>allowUnauthorizedRemoteConnection\<close>.
\<close>

definition getServerConnectSettings ::
  "bool \<Rightarrow> prompt_response \<Rightarrow> (error + IJupyterPasswordConnectInfo option) \<Rightarrow> bool \<Rightarrow>
   IJupyterConnection \<Rightarrow> SecurityStore \<Rightarrow> (error + ServerSettings) \<times> SecurityStore" where
  "getServerConnectSettings failOnPassword response passwordConnectionInfo allowUnauthorized connInfo st =
     (let serverSettings =
            \<lparr> settings_baseUrl = baseUrl connInfo, appUrl = [],
              wsUrl = replaceFirst ''http'' ''ws'' (baseUrl connInfo),
              settings_token = None, appendToken = None,
              init = \<lparr> init_cache = ''no-store'', init_credentials = ''same-origin'',
                       init_headers = None, init_agent_rejectUnauthorized = None \<rparr>,
              webSocket_cookieString = None,
              webSocket_allowUnauthorized = allowUnauthorized,
              webSocket_getAuthHeader = getAuthHeader connInfo,
              authorizingRequest = (getAuthHeader connInfo \<noteq> None) \<rparr>;
          (denied, st') = secureConnectionCheck connInfo response st
      in case denied of
           Some e \<Rightarrow> (Inl e, st')
         | None \<Rightarrow>
            (let withToken =
                   (if noTokenSpecified connInfo then
                      (if failOnPassword then Inl PasswordRequestNotAllowed
                       else case passwordConnectionInfo of
                              Inl e \<Rightarrow> Inl e
                            | Inr None \<Rightarrow> Inl PasswordFailure
                            | Inr (Some pwSettings) \<Rightarrow>
                               (case requestHeaders pwSettings of
                                  Some hs \<Rightarrow>
                                    (let withHeaders = serverSettings
                                           \<lparr> settings_token := Some [],
                                             init := (init serverSettings)\<lparr>init_headers := Some hs\<rparr>,
                                             webSocket_cookieString := Some (orElse (map_of hs ''Cookie'') []) \<rparr>;
                                         remapped =
                                           (if orElse (remappedBaseUrl pwSettings) [] \<noteq> [] then withHeaders
                                              \<lparr> settings_baseUrl := orElse (remappedBaseUrl pwSettings) [],
                                                wsUrl := replaceFirst ''http'' ''ws'' (orElse (remappedBaseUrl pwSettings) []) \<rparr>
                                            else withHeaders)
                                     in Inr (if orElse (remappedToken pwSettings) [] \<noteq> []
                                             then remapped\<lparr>settings_token := Some (orElse (remappedToken pwSettings) [])\<rparr>
                                             else remapped))
                                | None \<Rightarrow> Inr (serverSettings\<lparr>settings_token := Some (token connInfo)\<rparr>)))
                    else Inr (serverSettings\<lparr>settings_token := Some (token connInfo), appendToken := Some True\<rparr>))
             in case withToken of
                  Inl e \<Rightarrow> (Inl e, st')
                | Inr settings \<Rightarrow>
                    (if prefix ''https'' (baseUrl connInfo) \<and> allowUnauthorized
                     then (Inr (settings\<lparr>init := (init settings)\<lparr>init_agent_rejectUnauthorized := Some False\<rparr>\<rparr>), st')
                     else (Inr settings, st'))))"

subsection \<open>The manager\<close>

text \<open>
  The objects of \<^verbatim>\<open>@jupyterlab/services\<close> that the manager holds, with what the
  manager reads of them: of the specs manager its \<^verbatim>\<open>specs\<close> (key and spec
  model, in the order of \<^verbatim>\<open>Object.keys\<close>; a value may be undefined), of the
  session manager its \<^verbatim>\<open>isDisposed\<close> and the sessions \<^verbatim>\<open>running()\<close> iterates.
\<close>

record KernelSpecManager =
  specs :: "(string \<times> ISpecModel option) list option"

record SessionManager =
  sessions_isDisposed :: bool
  running :: "SessionModel list"

record JupyterSessionManager =
  connInfo :: "IJupyterConnection option"
  serverSettings :: "ServerSettings option"
  specsManager :: "KernelSpecManager option"
  kernelManager :: "unit option"
  sessionManager :: "SessionManager option"
  contentsManager :: "unit option"
  failOnPassword :: bool

definition newJupyterSessionManager :: "bool \<Rightarrow> JupyterSessionManager" where
  "newJupyterSessionManager failOnPw =
     \<lparr> connInfo = None, serverSettings = None, specsManager = None, kernelManager = None,
       sessionManager = None, contentsManager = None, failOnPassword = failOnPw \<rparr>"

text \<open>
  \<^verbatim>\<open>initialize\<close>: the connection is remembered first; the managers exist only
  if the settings were obtained. \<open>startSpecs\<close> and \<open>startSessions\<close> are the
  library managers as constructed.
\<close>

definition initialize ::
  "prompt_response \<Rightarrow> (error + IJupyterPasswordConnectInfo option) \<Rightarrow> bool \<Rightarrow>
   KernelSpecManager \<Rightarrow> SessionManager \<Rightarrow> IJupyterConnection \<Rightarrow>
   JupyterSessionManager \<Rightarrow> SecurityStore \<Rightarrow> error option \<times> JupyterSessionManager \<times> SecurityStore" where
  "initialize response passwordConnectionInfo allowUnauthorized startSpecs startSessions info m st =
     (let m1 = m\<lparr>connInfo := Some info\<rparr> in
      case getServerConnectSettings (failOnPassword m) response passwordConnectionInfo allowUnauthorized info st of
        (Inl e, st') \<Rightarrow> (Some e, m1, st')
      | (Inr settings, st') \<Rightarrow>
          (None,
           m1\<lparr> serverSettings := Some settings,
               specsManager := Some startSpecs,
               kernelManager := Some (),
               sessionManager := Some startSessions,
               contentsManager := Some () \<rparr>,
           st'))"

text \<open>
  \<^verbatim>\<open>getRunningSessions\<close>. \<open>refreshRunning\<close> is the session manager after
  \<^verbatim>\<open>refreshRunning()\<close>, or the error it rejects with. The loop pushes what the
  iterator yields until it is exhausted.
\<close>

fun pushAll :: "'a list \<Rightarrow> 'a list \<Rightarrow> 'a list" where
  "pushAll sessions [] = sessions"
| "pushAll sessions (session # iterator) = pushAll (sessions @ [session]) iterator"

definition getRunningSessions ::
  "(SessionManager \<Rightarrow> error + SessionManager) \<Rightarrow> JupyterSessionManager \<Rightarrow>
   (error + SessionModel list) \<times> JupyterSessionManager" where
  "getRunningSessions refreshRunning m =
     (case sessionManager m of
        None \<Rightarrow> (Inr [], m)
      | Some sm \<Rightarrow>
          (case refreshRunning sm of
             Inl e \<Rightarrow> (Inl e, m)
           | Inr sm' \<Rightarrow> (Inr (pushAll [] (running sm')), m\<lparr>sessionManager := Some sm'\<rparr>)))"

text \<open>
  \<^verbatim>\<open>getRunningKernels\<close>. The callback of \<^verbatim>\<open>map\<close> is \<open>toJupyterKernel\<close>. The
  callback of \<^verbatim>\<open>filter\<close> reads and extends the set \<^verbatim>\<open>dup\<close>, so the filter is a
  recursion that carries the set.
\<close>

definition toJupyterKernel :: "Runtime \<Rightarrow> KernelModel \<Rightarrow> IJupyterKernel" where
  "toJupyterKernel rt m =
     \<lparr> kernel_id = km_id m,
       kernel_name = km_name m,
       lastActivityTime = (case last_activity m of Some t \<Rightarrow> dateParse rt t | None \<Rightarrow> newDate rt),
       numberOfConnections = (case connections m of Some t \<Rightarrow> parseInt10 rt t | None \<Rightarrow> Some 0) \<rparr>"

fun filterDuplicates :: "string set \<Rightarrow> IJupyterKernel list \<Rightarrow> IJupyterKernel list" where
  "filterDuplicates dup [] = []"
| "filterDuplicates dup (item # items) =
     (if kernel_id item \<in> dup then filterDuplicates dup items
      else item # filterDuplicates (insert (kernel_id item) dup) items)"

definition getRunningKernels :: "Runtime \<Rightarrow> (error + KernelModel list) \<Rightarrow> error + IJupyterKernel list" where
  "getRunningKernels rt listRunning =
     (case listRunning of
        Inl e \<Rightarrow> Inl e
      | Inr models \<Rightarrow> Inr (filterDuplicates {} (map (toJupyterKernel rt) models)))"

subsection \<open>Starting a session\<close>





subsection \<open>Kernel specs\<close>

text \<open>
  The expression used twice in \<^verbatim>\<open>getKernelSpecs\<close>: the kernelspecs of the specs
  manager if it has specs and they have at least one key, the fallback
  otherwise.
\<close>

definition kernelspecsOr ::
  "(string \<times> ISpecModel option) list \<Rightarrow> KernelSpecManager option \<Rightarrow> (string \<times> ISpecModel option) list" where
  "kernelspecsOr fallback manager =
     (case manager of
        Some sm \<Rightarrow>
          (case specs sm of
             Some kernelspecs \<Rightarrow> if length (map fst kernelspecs) \<noteq> 0 then kernelspecs else fallback
           | None \<Rightarrow> fallback)
      | None \<Rightarrow> fallback)"

text \<open>
  \<^verbatim>\<open>keys.map(...)\<close>: the constructor reads fields of the spec model, so an
  undefined one makes it throw.
\<close>

fun mapKernelSpecs :: "(string \<times> ISpecModel option) list \<Rightarrow> string list \<Rightarrow> error + IJupyterKernelSpec list" where
  "mapKernelSpecs kernelspecs [] = Inr []"
| "mapKernelSpecs kernelspecs (k # keys) =
     (case map_of kernelspecs k of
        Some (Some spec) \<Rightarrow>
          (case mapKernelSpecs kernelspecs keys of
             Inl e \<Rightarrow> Inl e
           | Inr rest \<Rightarrow> Inr (JupyterKernelSpec spec # rest))
      | _ \<Rightarrow> Inl (OtherError ''TypeError''))"

text \<open>
  \<^verbatim>\<open>getKernelSpecs\<close>. Given: \<^verbatim>\<open>createInterpreterKernelSpec()\<close> of
  \<^verbatim>\<open>kernels/helpers\<close>; \<open>readyRejected\<close>, the error if \<^verbatim>\<open>sessionManager.ready\<close>
  rejects within ten seconds; \<open>refreshSpecs\<close>, which gives the specs manager as
  it is when the race with the ten seconds is over (refreshed, or as the
  timeout finds it), or the error if the refresh rejects before. Whatever is
  thrown inside the \<^verbatim>\<open>try\<close> is logged and the result is empty.
\<close>

definition getKernelSpecs ::
  "IJupyterKernelSpec \<Rightarrow> error option \<Rightarrow> (KernelSpecManager \<Rightarrow> error + KernelSpecManager) \<Rightarrow>
   JupyterSessionManager \<Rightarrow> (error + IJupyterKernelSpec list) \<times> JupyterSessionManager" where
  "getKernelSpecs createInterpreterKernelSpec readyRejected refreshSpecs m =
     (if connInfo m = None \<or> sessionManager m = None \<or> contentsManager m = None
      then (Inl SessionDisposedError, m)
      else
        (let oldKernelSpecs = kernelspecsOr [] (specsManager m) in
         case readyRejected of
           Some e \<Rightarrow> (Inr [], m)
         | None \<Rightarrow>
            (case (case specsManager m of
                     Some sm \<Rightarrow> (case refreshSpecs sm of Inl e \<Rightarrow> Inl e | Inr sm' \<Rightarrow> Inr (Some sm'))
                   | None \<Rightarrow> Inr None) of
               Inl e \<Rightarrow> (Inr [], m)
             | Inr refreshed \<Rightarrow>
                (let m' = m\<lparr>specsManager := refreshed\<rparr>;
                     kernelspecs = kernelspecsOr oldKernelSpecs refreshed;
                     keys = map fst kernelspecs
                 in if length keys \<noteq> 0 then
                      (case mapKernelSpecs kernelspecs keys of
                         Inl e \<Rightarrow> (Inr [], m')
                       | Inr result \<Rightarrow> (Inr result, m'))
                    else (Inr [createInterpreterKernelSpec], m')))))"

section \<open>RemoteKernelFinder\<close>

text \<open>
  A promise of a collaborator, by when it settles and how: \<open>Inl\<close> is a
  rejection. \<^verbatim>\<open>Promise.all\<close> rejects with the first rejection to happen, the
  earlier element first when two happen at the same time.
\<close>

datatype 'a promised = Promised nat "error + 'a"

fun rejectionOf :: "'a promised \<Rightarrow> (nat \<times> error) list" where
  "rejectionOf (Promised t (Inl e)) = [(t, e)]"
| "rejectionOf (Promised t (Inr v)) = []"

fun valueOf :: "'a promised \<Rightarrow> 'a list" where
  "valueOf (Promised t (Inl e)) = []"
| "valueOf (Promised t (Inr v)) = [v]"

fun earliest :: "(nat \<times> error) list \<Rightarrow> error option" where
  "earliest [] = None"
| "earliest [(t, e)] = Some e"
| "earliest ((t, e) # (t', e') # rest) =
     (if t' < t then earliest ((t', e') # rest) else earliest ((t, e) # rest))"

definition promiseAll :: "'a promised list \<Rightarrow> error + 'a list" where
  "promiseAll ps =
     (case earliest (concat (map rejectionOf ps)) of
        Some e \<Rightarrow> Inl e
      | None \<Rightarrow> Inr (concat (map valueOf ps)))"

text \<open>
  The callback of \<^verbatim>\<open>sessions.map\<close>. Reading \<^verbatim>\<open>last_activity\<close> of a null kernel
  throws. The active kernel found in \<^verbatim>\<open>running\<close> has the id of the session's
  kernel, and its other fields are overwritten by the ones set last, so the
  result does not depend on it.
\<close>

definition toLiveKernel ::
  "Runtime \<Rightarrow> IJupyterKernelSpec list \<Rightarrow> string \<Rightarrow> SessionModel \<Rightarrow> error + KernelConnectionMetadata" where
  "toLiveKernel rt kernelSpecs url s =
     (case session_kernel s of
        None \<Rightarrow> Inl (OtherError ''TypeError'')
      | Some liveKernel \<Rightarrow>
          Inr (ConnectToLiveRemoteKernel
                 \<lparr> live_id = km_id liveKernel,
                   live_name = km_name liveKernel,
                   live_lastActivityTime =
                     (case last_activity liveKernel of Some t \<Rightarrow> dateParse rt t | None \<Rightarrow> newDate rt),
                   live_numberOfConnections =
                     (case connections liveKernel of Some t \<Rightarrow> parseInt10 rt t | None \<Rightarrow> Some 0),
                   live_model = s,
                   live_spec = find (\<lambda>spec. name spec = km_name liveKernel) kernelSpecs \<rparr>
                 url (km_id liveKernel)))"

fun mapLive ::
  "Runtime \<Rightarrow> IJupyterKernelSpec list \<Rightarrow> string \<Rightarrow> SessionModel list \<Rightarrow> error + KernelConnectionMetadata list" where
  "mapLive rt kernelSpecs url [] = Inr []"
| "mapLive rt kernelSpecs url (s # sessions) =
     (case toLiveKernel rt kernelSpecs url s of
        Inl e \<Rightarrow> Inl e
      | Inr k \<Rightarrow>
          (case mapLive rt kernelSpecs url sessions of
             Inl e \<Rightarrow> Inl e
           | Inr ks \<Rightarrow> Inr (k # ks)))"

fun hidden :: "string set \<Rightarrow> KernelConnectionMetadata \<Rightarrow> bool" where
  "hidden kernelIdsToHide (ConnectToLiveRemoteKernel kernelModel url i) = (live_id kernelModel \<in> kernelIdsToHide)"
| "hidden kernelIdsToHide _ = False"

text \<open>
  \<^verbatim>\<open>listKernels\<close>. Given, as the injected collaborators behave:
  \<open>getKernelId\<close> of \<^verbatim>\<open>kernels/helpers\<close>; \<open>getInterpreter\<close>, the promise of the
  interpreter of a spec; \<open>create\<close>, the session manager the factory creates or
  the error it rejects with; and, for that manager, the promises of
  \<^verbatim>\<open>getRunningKernels\<close>, \<^verbatim>\<open>getKernelSpecs\<close> and \<^verbatim>\<open>getRunningSessions\<close>. The second
  component tells whether the \<^verbatim>\<open>finally\<close> block disposed a session manager.
  The \<^verbatim>\<open>try\<close> has no \<^verbatim>\<open>catch\<close>.
\<close>

definition listKernels ::
  "Runtime \<Rightarrow> (IJupyterKernelSpec \<Rightarrow> string \<Rightarrow> string) \<Rightarrow>
   (IJupyterKernelSpec \<Rightarrow> string \<Rightarrow> string option promised) \<Rightarrow>
   (IJupyterConnection \<Rightarrow> error + 'm) \<Rightarrow>
   ('m \<Rightarrow> IJupyterKernel list promised) \<Rightarrow>
   ('m \<Rightarrow> IJupyterKernelSpec list promised) \<Rightarrow>
   ('m \<Rightarrow> SessionModel list promised) \<Rightarrow>
   string set \<Rightarrow> IJupyterConnection option \<Rightarrow>
   (error + KernelConnectionMetadata list) \<times> bool" where
  "listKernels rt getKernelId getInterpreter create runningKernels kernelSpecs runningSessions
      kernelIdsToHide info =
     (case info of
        None \<Rightarrow> (Inr [], False)
      | Some connection \<Rightarrow>
          (if conn_type connection \<noteq> ''jupyter'' then (Inr [], False)
           else
             (case create connection of
                Inl e \<Rightarrow> (Inl e, False)
              | Inr manager \<Rightarrow>
                 (case earliest (rejectionOf (runningKernels manager) @ rejectionOf (kernelSpecs manager)
                                   @ rejectionOf (runningSessions manager)) of
                    Some e \<Rightarrow> (Inl e, True)
                  | None \<Rightarrow>
                     (let found = concat (valueOf (kernelSpecs manager));
                          sessions = concat (valueOf (runningSessions manager))
                      in case promiseAll (map (\<lambda>spec. getInterpreter spec (baseUrl connection)) found) of
                           Inl e \<Rightarrow> (Inl e, True)
                         | Inr interpreters \<Rightarrow>
                            (let mappedSpecs =
                                   map (\<lambda>(spec, interpreter).
                                          StartUsingRemoteKernelSpec interpreter spec
                                            (getKernelId spec (baseUrl connection)) (baseUrl connection))
                                       (zip found interpreters)
                             in case mapLive rt found (baseUrl connection) sessions of
                                  Inl e \<Rightarrow> (Inl e, True)
                                | Inr mappedLive \<Rightarrow>
                                    (Inr (filter (\<lambda>k. \<not> hidden kernelIdsToHide k) mappedLive @ mappedSpecs),
                                     True)))))))"

text \<open>
  The method is decorated with \<^verbatim>\<open>@captureTelemetry(Telemetry.KernelListingPerf,
  { kind: 'remote' })\<close> (line 189; the decorator is in the telemetry module).
  With the default \<^verbatim>\<open>captureDuration\<close> and no lazy properties the decorator calls
  the method, chains \<^verbatim>\<open>then\<close> and \<^verbatim>\<open>catch\<close> on the promise it gets, and returns
  that same promise. A telemetry event is the argument list of one call of
  \<^verbatim>\<open>sendTelemetryEvent\<close>; what that function does with it is not embedded.
  \<open>timesSeen\<close> is the module's set \<^verbatim>\<open>timesSeenThisEventWithSameProperties\<close>, its
  keys being event name and properties. The elapsed time of the stop watch is
  given.
\<close>

record TelemetryEvent =
  event_name :: string
  event_duration :: nat
  event_kind :: string
  event_firstTime :: bool
  event_failed :: bool
  event_ex :: "error option"

definition captureTelemetry ::
  "string \<Rightarrow> string \<Rightarrow> nat \<Rightarrow> (string \<times> string) set \<Rightarrow> (error + 'a) \<Rightarrow>
   (error + 'a) \<times> TelemetryEvent \<times> (string \<times> string) set" where
  "captureTelemetry eventName kind elapsedTime timesSeen result =
     (let firstTime = ((eventName, kind) \<notin> timesSeen);
          sent =
            (case result of
               Inr data \<Rightarrow>
                 \<lparr> event_name = eventName, event_duration = elapsedTime, event_kind = kind,
                   event_firstTime = firstTime, event_failed = False, event_ex = None \<rparr>
             | Inl ex \<Rightarrow>
                 \<lparr> event_name = eventName, event_duration = elapsedTime, event_kind = kind,
                   event_firstTime = False, event_failed = True, event_ex = Some ex \<rparr>)
      in (result, sent, insert (eventName, kind) timesSeen))"

text \<open>
  \<^verbatim>\<open>listKernels\<close> as callers see it: the decorated method. The first argument
  is the constant \<^verbatim>\<open>Telemetry.KernelListingPerf\<close>.
\<close>

definition listKernels_decorated ::
  "string \<Rightarrow> nat \<Rightarrow> (string \<times> string) set \<Rightarrow>
   Runtime \<Rightarrow> (IJupyterKernelSpec \<Rightarrow> string \<Rightarrow> string) \<Rightarrow>
   (IJupyterKernelSpec \<Rightarrow> string \<Rightarrow> string option promised) \<Rightarrow>
   (IJupyterConnection \<Rightarrow> error + 'm) \<Rightarrow>
   ('m \<Rightarrow> IJupyterKernel list promised) \<Rightarrow>
   ('m \<Rightarrow> IJupyterKernelSpec list promised) \<Rightarrow>
   ('m \<Rightarrow> SessionModel list promised) \<Rightarrow>
   string set \<Rightarrow> IJupyterConnection option \<Rightarrow>
   ((error + KernelConnectionMetadata list) \<times> bool) \<times> TelemetryEvent \<times> (string \<times> string) set" where
  "listKernels_decorated KernelListingPerf elapsedTime timesSeen rt getKernelId getInterpreter create
      runningKernels kernelSpecs runningSessions kernelIdsToHide info =
     (let (result, disposedManager) =
            listKernels rt getKernelId getInterpreter create runningKernels kernelSpecs runningSessions
              kernelIdsToHide info;
          (returned, sent, seen) = captureTelemetry KernelListingPerf ''remote'' elapsedTime timesSeen result
      in ((returned, disposedManager), sent, seen))"

section \<open>Notions of the specification and example inputs\<close>

text \<open>
  "Deduplicated by kernel id, keeping the first occurrence of each id", as the
  specification words it: the head stays and every later item with its id goes.
\<close>

fun dedupKeepFirst :: "IJupyterKernel list \<Rightarrow> IJupyterKernel list" where
  "dedupKeepFirst [] = []"
| "dedupKeepFirst (x # xs) = x # dedupKeepFirst (filter (\<lambda>y. kernel_id y \<noteq> kernel_id x) xs)"

text \<open>
  The live kernels of an identity: the kernels constructed for the uri and not
  disposed, in the order of construction.
\<close>

definition liveKernelsFor :: "string \<Rightarrow> KernelProvider \<Rightarrow> kernel_ref list" where
  "liveKernelsFor u s =
     filter (\<lambda>k. kernel_uri (kernels s ! k) = u \<and> k \<notin> disposedKernels s) [0..<length (kernels s)]"

text \<open>
  The invariant of the provider: every disposed kernel is a constructed one,
  and the live kernels of an identity are exactly the kernel recorded for it,
  if any. So no identity has two live kernels.
\<close>

definition oneLiveKernelPerIdentity :: "KernelProvider \<Rightarrow> bool" where
  "oneLiveKernelPerIdentity s =
     ((\<forall>r \<in> disposedKernels s. r < length (kernels s)) \<and>
      (\<forall>u. liveKernelsFor u s = (case get_kernel u s of Some k \<Rightarrow> [k] | None \<Rightarrow> [])))"

text \<open>Calls of \<^verbatim>\<open>getOrCreate\<close> one after the other.\<close>

fun getOrCreates :: "string \<Rightarrow> (string \<times> KernelOptions) list \<Rightarrow> KernelProvider \<Rightarrow> KernelProvider" where
  "getOrCreates iwv [] s = s"
| "getOrCreates iwv ((u, opts) # calls) s = getOrCreates iwv calls (snd (getOrCreate iwv u opts s))"

text \<open>The condition under which \<^verbatim>\<open>getOrCreate\<close> goes past its early return.\<close>

definition mustCreate :: "string \<Rightarrow> KernelOptions \<Rightarrow> KernelProvider \<Rightarrow> bool" where
  "mustCreate u opts s =
     (case getInternal u s of
        Some (o', k') \<Rightarrow> metadata_id (metadata o') \<noteq> metadata_id (metadata opts)
      | None \<Rightarrow> True)"

text \<open>
  What may happen between the lookups of two calls without disturbing the
  entry \<open>a\<close> of \<open>key\<close>, whose promise is \<open>p\<close>: anything but the settling of
  \<open>p\<close>, \<^verbatim>\<open>clearCache\<close>, a reaction registered for the key on another data object
  (one left over from an earlier entry of the key), and the disposal of a
  server whose replaced \<^verbatim>\<open>dispose\<close> deletes the key (a server an earlier entry
  of the key resolved to).
\<close>

fun quiet :: "string \<Rightarrow> addr \<Rightarrow> promise_id \<Rightarrow> turn \<Rightarrow> ServerCache \<Rightarrow> bool" where
  "quiet key a p (Issue opts) s = True"
| "quiet key a p (Lookup opts fixedOptions) s = True"
| "quiet key a p (Settle q out) s = (q \<noteq> p)"
| "quiet key a p (Reaction k b) s = (k \<noteq> key \<or> b = a)"
| "quiet key a p (ServerDispose server) s = (key \<notin> set (disposeWrappers s server))"
| "quiet key a p ClearCache s = False"

fun undisturbed :: "string \<Rightarrow> addr \<Rightarrow> promise_id \<Rightarrow> turn list \<Rightarrow> ServerCache \<Rightarrow> bool" where
  "undisturbed key a p [] s = True"
| "undisturbed key a p (t # ts) s = (quiet key a p t s \<and> undisturbed key a p ts (runTurn t s))"

subsection \<open>Example inputs\<close>

definition exampleRuntime :: Runtime where
  "exampleRuntime = \<lparr> dateParse = (\<lambda>_. Some 0), parseInt10 = (\<lambda>_. Some 1), newDate = Some 1000 \<rparr>"

definition exampleModels :: "KernelModel list" where
  "exampleModels =
     [ \<lparr> km_id = ''a'', km_name = ''python3'', last_activity = Some ''2022-01-01'', connections = Some ''2'' \<rparr>,
       \<lparr> km_id = ''a'', km_name = ''python3'', last_activity = None, connections = None \<rparr>,
       \<lparr> km_id = ''b'', km_name = ''julia'', last_activity = None, connections = None \<rparr> ]"

definition exampleConnection :: IJupyterConnection where
  "exampleConnection =
     \<lparr> conn_type = ''jupyter'', baseUrl = ''http://host:8888/'', token = ''null'', hostName = ''host'',
       localLaunch = False, displayName = ''host'', rootDirectory = [], getAuthHeader = None \<rparr>"

definition exampleSettings :: ServerSettings where
  "exampleSettings =
     \<lparr> settings_baseUrl = ''http://host:8888/'', appUrl = [], wsUrl = ''ws://host:8888/'',
       settings_token = Some ''null'', appendToken = None,
       init = \<lparr> init_cache = ''no-store'', init_credentials = ''same-origin'',
                init_headers = None, init_agent_rejectUnauthorized = None \<rparr>,
       webSocket_cookieString = None, webSocket_allowUnauthorized = False,
       webSocket_getAuthHeader = None, authorizingRequest = False \<rparr>"

text \<open>An initialized manager whose specs manager has no kernel spec.\<close>

definition exampleManager :: JupyterSessionManager where
  "exampleManager =
     \<lparr> connInfo = Some exampleConnection, serverSettings = Some exampleSettings,
       specsManager = Some \<lparr> specs = Some [] \<rparr>, kernelManager = Some (),
       sessionManager = Some \<lparr> sessions_isDisposed = False, running = [] \<rparr>,
       contentsManager = Some (), failOnPassword = False \<rparr>"

definition exampleDefaultSpec :: IJupyterKernelSpec where
  "exampleDefaultSpec =
     \<lparr> name = ''python3'', language = ''python'', spec_uri = UriFile ''python'', env = None,
       display_name = ''Python 3'', argv = [''python'', ''-m'', ''ipykernel_launcher''],
       interrupt_mode = None, spec_meta = None \<rparr>"




text \<open>
  A provider as constructed, with no notebook document open, and two requests
  for the same document with different connections.
\<close>

definition newKernelProvider :: KernelProvider where
  "newKernelProvider =
     \<lparr> notebookDocuments = [], jupyterLaunchTimeout = (\<lambda>_. 60),
       kernelsByNotebook = (\<lambda>_. None), kernelsByUri = (\<lambda>_. None), kernels = [],
       disposedKernels = {}, asyncDisposables = [], disposalWatches = [], trace = [] \<rparr>"

definition options1 :: KernelOptions where
  "options1 = \<lparr> metadata = StartUsingLocalKernelSpec ''python3'', controller = ''c1'', resourceUri = None \<rparr>"

definition options2 :: KernelOptions where
  "options2 = \<lparr> metadata = StartUsingPythonInterpreter ''venv'', controller = ''c2'', resourceUri = None \<rparr>"

definition providerWithK1 :: KernelProvider where
  "providerWithK1 = snd (getOrCreate ''interactive'' ''file:///d.ipynb'' options1 newKernelProvider)"

text \<open>
  Two calls of the cache's \<^verbatim>\<open>getOrCreate\<close> with the same options, which name no
  working directory, so that each call waits for \<^verbatim>\<open>calculateWorkingDirectory\<close>.
  The first has looked up and created in \<open>race_cached\<close>, where its promise is
  pending. Then the second call is issued. In \<open>race_rejected\<close> the promise has
  been rejected after that and the first call has reacted.
\<close>

definition race_options :: INotebookServerOptions where
  "race_options =
     \<lparr> uri = Some ''http://host:8888/'', resource = None, skipUsingDefaultConfig = None,
       workingDir = None, ui = False, localJupyter = False \<rparr>"

definition race_fixed :: INotebookServerOptions where
  "race_fixed = generateDefaultOptions ''/home/user'' race_options"

definition race_cached :: ServerCache where
  "race_cached = snd (getOrCreate_lookup race_options race_fixed newServerCache)"

definition race_rejected :: ServerCache where
  "race_rejected =
     run [Issue race_options, Settle 0 (Rejected (OtherError ''no server'')),
          Reaction (generateKey race_fixed) 0] race_cached"

text \<open>
  Another call, for another server, runs to its end while the first promise
  is pending and the second call waits for its options.
\<close>

definition other_options :: INotebookServerOptions where
  "other_options = race_options\<lparr>uri := Some ''http://other:8888/''\<rparr>"

definition other_fixed :: INotebookServerOptions where
  "other_fixed = generateDefaultOptions ''/home/user'' other_options"

definition race_between :: "turn list" where
  "race_between =
     [Issue race_options, Issue other_options, Lookup other_options other_fixed,
      Settle 1 (Fulfilled (Some 7)), Reaction (generateKey other_fixed) 1]"

text \<open>
  The store of a fresh process, a second server on another port of the same
  host, and the store after the user has answered Yes for the first server.
\<close>

definition newSecurityStore :: SecurityStore where
  "newSecurityStore =
     \<lparr> userAllowsInsecureConnections = False, secureServers = (\<lambda>_. None), warningsShown = 0 \<rparr>"

definition otherPortConnection :: IJupyterConnection where
  "otherPortConnection = exampleConnection\<lparr>baseUrl := ''http://host:9999/''\<rparr>"

definition trustedStore :: SecurityStore where
  "trustedStore = snd (secureConnectionCheck exampleConnection BannerLabelYes newSecurityStore)"

text \<open>Checks of later connections, one after the other, each with the user's answer.\<close>

fun secureConnectionChecks :: "(IJupyterConnection \<times> prompt_response) list \<Rightarrow> SecurityStore \<Rightarrow> SecurityStore" where
  "secureConnectionChecks [] st = st"
| "secureConnectionChecks ((c, response) # later) st =
     secureConnectionChecks later (snd (secureConnectionCheck c response st))"

text \<open>
  Collaborators of \<^verbatim>\<open>listKernels\<close>: a factory that creates a manager, a
  listing of running kernels that fails, and listings that succeed with
  nothing.
\<close>

definition createsManager :: "IJupyterConnection \<Rightarrow> error + unit" where
  "createsManager c = Inr ()"

definition runningKernelsFail :: "unit \<Rightarrow> IJupyterKernel list promised" where
  "runningKernelsFail m = Promised 1 (Inl (OtherError ''listRunning failed''))"

definition noKernelSpecs :: "unit \<Rightarrow> IJupyterKernelSpec list promised" where
  "noKernelSpecs m = Promised 2 (Inr [])"

definition noRunningSessions :: "unit \<Rightarrow> SessionModel list promised" where
  "noRunningSessions m = Promised 3 (Inr [])"

definition noInterpreter :: "IJupyterKernelSpec \<Rightarrow> string \<Rightarrow> string option promised" where
  "noInterpreter spec url = Promised 0 (Inr None)"

definition exampleKernelId :: "IJupyterKernelSpec \<Rightarrow> string \<Rightarrow> string" where
  "exampleKernelId spec url = name spec @ ''.'' @ url"

section \<open>The server cache\<close>

lemma runTurn_keeps_promise:
  "a < length (objects s) \<Longrightarrow>
   a < length (objects (runTurn t s)) \<and> promise (objects (runTurn t s) ! a) = promise (objects s ! a)"
  by (cases t)
     (auto simp: getOrCreate_lookup_def settle_def getOrCreate_settled_def server_dispose_def
        clearCache_def Let_def nth_append nth_list_update
      split: option.splits outcome.splits)

lemma run_keeps_promise:
  "a < length (objects s) \<Longrightarrow>
   a < length (objects (run ts s)) \<and> promise (objects (run ts s) ! a) = promise (objects s ! a)"
proof (induction ts arbitrary: s)
  case Nil
  then show ?case by simp
next
  case (Cons t ts)
  from runTurn_keeps_promise[OF Cons.prems, of t]
  have 1: "a < length (objects (runTurn t s))"
    and 2: "promise (objects (runTurn t s) ! a) = promise (objects s ! a)"
    by simp_all
  from Cons.IH[OF 1] 2 show ?case by simp
qed

lemma runTurn_fresh_pending:
  assumes "\<forall>p. length (createCalls s) \<le> p \<longrightarrow> settled s p = None"
  shows "\<forall>p. length (createCalls (runTurn t s)) \<le> p \<longrightarrow> settled (runTurn t s) p = None"
  using assms
  by (cases t)
     (auto simp: getOrCreate_lookup_def settle_def getOrCreate_settled_def server_dispose_def
        clearCache_def Let_def
      split: option.splits outcome.splits if_splits)

lemma run_fresh_pending:
  "\<forall>p. length (createCalls s) \<le> p \<longrightarrow> settled s p = None \<Longrightarrow>
   \<forall>p. length (createCalls (run ts s)) \<le> p \<longrightarrow> settled (run ts s) p = None"
proof (induction ts arbitrary: s)
  case Nil
  then show ?case by simp
next
  case (Cons t ts)
  from Cons.IH[OF runTurn_fresh_pending[OF Cons.prems, of t]] show ?case by simp
qed

lemma reachable_fresh_pending:
  "settled (run ts newServerCache) (length (createCalls (run ts newServerCache))) = None"
  using run_fresh_pending[of newServerCache ts] by (simp add: newServerCache_def)

lemma lookup_creates:
  assumes "cache s0 (generateKey fixed1) = None" and "getOrCreate_lookup opts1 fixed1 s0 = (a1, s1)"
  shows "createCalls s1 = createCalls s0 @ [opts1]" and "a1 < length (objects s1)"
    and "promise (objects s1 ! a1) = length (createCalls s0)"
    and "cache s1 (generateKey fixed1) = Some a1"
  using assms by (auto simp: getOrCreate_lookup_def Let_def)

lemma race_key:
  "generateKey race_fixed = ''uri=http://host:8888/;useFlag=false;local=false;workingDir=/home/user''"
  by (simp add: generateKey_def race_fixed_def generateDefaultOptions_def race_options_def
        boolString_def optString_def)

lemma other_key:
  "generateKey other_fixed = ''uri=http://other:8888/;useFlag=false;local=false;workingDir=/home/user''"
  by (simp add: generateKey_def other_fixed_def other_options_def generateDefaultOptions_def
        race_options_def boolString_def optString_def)

lemma race_cached_eq:
  "race_cached = newServerCache\<lparr> createCalls := [race_options],
                     objects := [\<lparr> options = race_fixed, promise = 0, resolved = False \<rparr>],
                     cache := (\<lambda>_. None)(generateKey race_fixed \<mapsto> 0) \<rparr>"
  by (simp add: race_cached_def getOrCreate_lookup_def newServerCache_def Let_def)

lemma race_lookup: "getOrCreate_lookup race_options race_fixed newServerCache = (0, race_cached)"
  by (simp add: race_cached_eq) (simp add: getOrCreate_lookup_def newServerCache_def Let_def)

text \<open>
  Claim C1, as stated, fails. The first call has created its promise, which
  is pending in \<open>race_cached\<close>, when the second call is issued. While the
  second call awaits its normalised options the promise is rejected and the
  first call's reaction evicts the entry (\<open>race_rejected\<close>); the second call's
  lookup then finds nothing and invokes \<^verbatim>\<open>createFunction\<close> again, getting another
  promise.
\<close>

theorem getOrCreate_race_counterexample:
  "settled race_cached (promise (objects race_cached ! 0)) = None
   \<and> cache race_cached (generateKey race_fixed) = Some 0
   \<and> createCalls race_cached = [race_options]
   \<and> cache race_rejected (generateKey race_fixed) = None
   \<and> fst (getOrCreate_lookup race_options race_fixed race_rejected) = 1
   \<and> createCalls (snd (getOrCreate_lookup race_options race_fixed race_rejected)) = [race_options, race_options]
   \<and> promise (objects (snd (getOrCreate_lookup race_options race_fixed race_rejected)) ! 1) = 1"
  by (simp add: race_rejected_def race_cached_eq getOrCreate_settled_def settle_def
        getOrCreate_lookup_def newServerCache_def Let_def)

lemma quiet_keeps_entry:
  assumes "cache s key = Some a" and "a < length (objects s)"
    and "promise (objects s ! a) = p" and "settled s p = None"
    and "quiet key a p t s"
  shows "cache (runTurn t s) key = Some a \<and> a < length (objects (runTurn t s))
       \<and> promise (objects (runTurn t s) ! a) = p \<and> settled (runTurn t s) p = None"
proof (cases t)
  case (Issue opts)
  with assms show ?thesis by simp
next
  case (Lookup opts fixedOptions)
  with assms show ?thesis
    by (auto simp: getOrCreate_lookup_def Let_def nth_append split: option.splits)
next
  case (Settle q out)
  with assms show ?thesis by (auto simp: settle_def split: option.splits)
next
  case (Reaction k b)
  show ?thesis
  proof (cases "b = a")
    case True
    with assms Reaction show ?thesis by (simp add: getOrCreate_settled_def)
  next
    case False
    with assms Reaction have "k \<noteq> key" by simp
    with assms Reaction False show ?thesis
      by (auto simp: getOrCreate_settled_def nth_list_update split: option.splits outcome.splits)
  qed
next
  case (ServerDispose server)
  with assms show ?thesis by (simp add: server_dispose_def)
next
  case ClearCache
  with assms show ?thesis by simp
qed

lemma undisturbed_keeps_entry:
  "cache s key = Some a \<Longrightarrow> a < length (objects s) \<Longrightarrow> promise (objects s ! a) = p \<Longrightarrow>
   settled s p = None \<Longrightarrow> undisturbed key a p ts s \<Longrightarrow>
   cache (run ts s) key = Some a \<and> promise (objects (run ts s) ! a) = p \<and> settled (run ts s) p = None"
proof (induction ts arbitrary: s)
  case Nil
  then show ?case by simp
next
  case (Cons t ts)
  from Cons.prems have q: "quiet key a p t s" and u: "undisturbed key a p ts (runTurn t s)"
    by simp_all
  from quiet_keeps_entry[OF Cons.prems(1) Cons.prems(2) Cons.prems(3) Cons.prems(4) q]
  have "cache (runTurn t s) key = Some a" "a < length (objects (runTurn t s))"
    "promise (objects (runTurn t s) ! a) = p" "settled (runTurn t s) p = None"
    by simp_all
  from Cons.IH[OF this u] show ?case by simp
qed

text \<open>
  Claim C1, amended. Two calls whose options normalise to the same key, the
  first finding no entry and creating its promise. If that promise is not
  settled before the second call's lookup runs, and the entry is not evicted
  before it (no \<^verbatim>\<open>clearCache\<close>, no reaction and no server disposal left over from
  an earlier entry of the key), whatever else happens in between, then: the
  first call invoked \<^verbatim>\<open>createFunction\<close> once; at the second call's lookup the
  promise is still pending; the second call invokes nothing and changes
  nothing; and it is chained on the same data object, whose promise is the one
  that single invocation returned. The second hypothesis, that the promise
  \<^verbatim>\<open>createFunction\<close> returns next has not been settled, holds in every state a
  run reaches from the new cache (\<open>reachable_fresh_pending\<close>).
\<close>

theorem getOrCreate_shares_cached_promise:
  assumes "cache s0 (generateKey fixed1) = None"
    and "settled s0 (length (createCalls s0)) = None"
    and "getOrCreate_lookup opts1 fixed1 s0 = (a1, s1)"
    and "generateKey fixed2 = generateKey fixed1"
    and "undisturbed (generateKey fixed1) a1 (length (createCalls s0)) turns s1"
  shows "createCalls s1 = createCalls s0 @ [opts1]
       \<and> promise (objects s1 ! a1) = length (createCalls s0)
       \<and> settled (run turns s1) (length (createCalls s0)) = None
       \<and> getOrCreate_lookup opts2 fixed2 (run turns s1) = (a1, run turns s1)
       \<and> promise (objects (run turns s1) ! a1) = promise (objects s1 ! a1)"
proof -
  note c = lookup_creates[OF assms(1) assms(3)]
  have pending: "settled s1 (length (createCalls s0)) = None"
    using assms(1,2,3) by (auto simp: getOrCreate_lookup_def Let_def)
  note k = undisturbed_keeps_entry[OF c(4) c(2) c(3) pending assms(5)]
  have "getOrCreate_lookup opts2 fixed2 (run turns s1) = (a1, run turns s1)"
    using assms(4) k by (simp add: getOrCreate_lookup_def)
  then show ?thesis using c k by simp
qed

lemma race_between_run:
  "run race_between race_cached =
     race_cached
       \<lparr> createCalls := [race_options, other_options],
         objects := [\<lparr> options = race_fixed, promise = 0, resolved = False \<rparr>,
                     \<lparr> options = other_fixed, promise = 1, resolved = True \<rparr>],
         cache := (\<lambda>_. None)(generateKey race_fixed \<mapsto> 0, generateKey other_fixed \<mapsto> 1),
         settled := (\<lambda>_. None)(1 \<mapsto> Fulfilled (Some 7)),
         disposeWrappers := (\<lambda>_. [])(7 := [generateKey other_fixed]) \<rparr>"
  by (simp add: race_between_def race_cached_eq getOrCreate_lookup_def settle_def
        getOrCreate_settled_def newServerCache_def Let_def race_key other_key)

theorem getOrCreate_shares_cached_promise_witness:
  "cache newServerCache (generateKey race_fixed) = None
   \<and> settled newServerCache (length (createCalls newServerCache)) = None
   \<and> getOrCreate_lookup race_options race_fixed newServerCache = (0, race_cached)
   \<and> undisturbed (generateKey race_fixed) 0 0 race_between race_cached
   \<and> settled (run race_between race_cached) 0 = None
   \<and> getOrCreate_lookup race_options race_fixed (run race_between race_cached)
        = (0, run race_between race_cached)
   \<and> createCalls (run race_between race_cached) = [race_options, other_options]"
proof -
  have h1: "cache newServerCache (generateKey race_fixed) = None" by (simp add: newServerCache_def)
  have h2: "settled newServerCache (length (createCalls newServerCache)) = None"
    by (simp add: newServerCache_def)
  have n: "length (createCalls newServerCache) = 0" by (simp add: newServerCache_def)
  have h5: "undisturbed (generateKey race_fixed) 0 (length (createCalls newServerCache))
              race_between race_cached"
    by (simp add: n race_between_def race_key other_key)
  have c: "createCalls (run race_between race_cached) = [race_options, other_options]"
    by (simp add: race_between_run)
  show ?thesis
    using getOrCreate_shares_cached_promise [OF h1 h2 race_lookup refl h5, of race_options]
      h1 h2 race_lookup h5 n c
    by simp
qed

text \<open>
  Claim C7. When the creation promise of a call is rejected, or fulfilled with
  no server, the call's reaction removes the entry of its key and then hands
  the caller the error (or undefined). A following \<^verbatim>\<open>getOrCreate\<close> with the same
  key finds no entry, invokes \<^verbatim>\<open>createFunction\<close> again and is chained on the
  new, pending promise, not on the failed one. The last hypothesis, that the
  promise \<^verbatim>\<open>createFunction\<close> returns next has not been settled, holds in every
  state a run reaches from the new cache (\<open>reachable_fresh_pending\<close>).
\<close>

theorem getOrCreate_failure_evicts:
  assumes "a < length (objects s)"
    and "settled s (promise (objects s ! a)) = Some out"
    and "out = Rejected e \<or> out = Fulfilled None"
    and "settled s (length (createCalls s)) = None"
  shows "\<exists>s'. getOrCreate_settled (generateKey fixedOptions) a s =
                 Some (case out of Rejected e' \<Rightarrow> Inl e' | Fulfilled v \<Rightarrow> Inr None, s')
            \<and> cache s' (generateKey fixedOptions) = None
            \<and> createCalls s' = createCalls s
            \<and> createCalls (snd (getOrCreate_lookup opts fixedOptions s')) = createCalls s @ [opts]
            \<and> settled (snd (getOrCreate_lookup opts fixedOptions s'))
                 (promise (objects (snd (getOrCreate_lookup opts fixedOptions s'))
                            ! fst (getOrCreate_lookup opts fixedOptions s'))) = None"
  using assms
  by (auto simp: getOrCreate_settled_def getOrCreate_lookup_def Let_def)

theorem getOrCreate_failure_evicts_witness:
  "0 < length (objects (settle 0 (Rejected (OtherError ''no server'')) race_cached))
   \<and> settled (settle 0 (Rejected (OtherError ''no server'')) race_cached) 0
        = Some (Rejected (OtherError ''no server''))
   \<and> (\<exists>s'. getOrCreate_settled (generateKey race_fixed) 0
               (settle 0 (Rejected (OtherError ''no server'')) race_cached)
              = Some (Inl (OtherError ''no server''), s')
          \<and> cache s' (generateKey race_fixed) = None
          \<and> createCalls (snd (getOrCreate_lookup race_options race_fixed s')) = [race_options, race_options])"
proof -
  let ?s = "settle 0 (Rejected (OtherError ''no server'')) race_cached"
  have h1: "0 < length (objects ?s)"
    by (simp add: race_cached_eq settle_def newServerCache_def)
  have p: "promise (objects ?s ! 0) = 0"
    by (simp add: race_cached_eq settle_def newServerCache_def)
  have h2: "settled ?s (promise (objects ?s ! 0)) = Some (Rejected (OtherError ''no server''))"
    by (simp add: race_cached_eq settle_def newServerCache_def)
  have h3: "Rejected (OtherError ''no server'') = Rejected (OtherError ''no server'')
            \<or> Rejected (OtherError ''no server'') = Fulfilled None"
    by simp
  have h4: "settled ?s (length (createCalls ?s)) = None"
    by (simp add: race_cached_eq settle_def newServerCache_def)
  have c: "createCalls ?s = [race_options]"
    by (simp add: race_cached_eq settle_def newServerCache_def)
  from getOrCreate_failure_evicts [OF h1 h2 h3 h4, of race_fixed race_options]
  obtain s' where
    "getOrCreate_settled (generateKey race_fixed) 0 ?s = Some (Inl (OtherError ''no server''), s')"
    "cache s' (generateKey race_fixed) = None"
    "createCalls (snd (getOrCreate_lookup race_options race_fixed s')) = createCalls ?s @ [race_options]"
    by auto
  then have "\<exists>s'. getOrCreate_settled (generateKey race_fixed) 0 ?s
                    = Some (Inl (OtherError ''no server''), s')
          \<and> cache s' (generateKey race_fixed) = None
          \<and> createCalls (snd (getOrCreate_lookup race_options race_fixed s')) = [race_options, race_options]"
    using c by auto
  then show ?thesis using h1 h2 p by simp
qed

section \<open>One kernel per document\<close>

lemma findNotebook_disposeOldKernel [simp]:
  "findNotebook u (disposeOldKernel u' s) = findNotebook u s"
  by (simp add: findNotebook_def disposeOldKernel_def split: option.splits)

lemma getInternal_disposeOldKernel: "getInternal u (disposeOldKernel u s) = None"
  by (auto simp: getInternal_def disposeOldKernel_def findNotebook_def split: option.splits)

lemma getOrCreate_reuse:
  "getInternal u s = Some (o', k') \<Longrightarrow> metadata_id (metadata o') = metadata_id (metadata opts)
   \<Longrightarrow> getOrCreate iwv u opts s = (k', s)"
  by (simp add: getOrCreate_def)

lemma getOrCreate_records:
  "getOrCreate iwv u opts s = (k, s') \<Longrightarrow>
   \<exists>o'. getInternal u s' = Some (o', k) \<and> metadata_id (metadata o') = metadata_id (metadata opts)"
  by (auto simp: getOrCreate_def Let_def getInternal_def findNotebook_def
        deleteMappingIfKernelIsDisposed_def disposeOldKernel_def
      split: option.splits if_splits prod.splits)

lemma disposeOldKernel_facts:
  assumes "getInternal u s = Some (o0, k0)"
  shows "kernels (disposeOldKernel u s) = kernels s"
    and "disposedKernels (disposeOldKernel u s) = insert k0 (disposedKernels s)"
    and "trace (disposeOldKernel u s) = trace s @ [KernelDisposed k0]"
  using assms by (auto simp: disposeOldKernel_def getInternal_def split: option.splits)

lemma getOrCreate_create:
  assumes "getInternal u s = Some (o0, k0)"
    and "metadata_id (metadata o0) \<noteq> metadata_id (metadata opts)"
    and "getOrCreate iwv u opts s = (k, s')"
  shows "k = length (kernels s)"
    and "trace s' = trace (disposeOldKernel u s) @ [KernelConstructed k, KernelRecorded u k]"
    and "disposedKernels s' = disposedKernels (disposeOldKernel u s)"
    and "\<exists>x. kernels s' = kernels s @ [x] \<and> kernel_uri x = u"
  using assms disposeOldKernel_facts(1)[OF assms(1)]
  by (auto simp: getOrCreate_def Let_def deleteMappingIfKernelIsDisposed_def split: option.splits)

lemma live_after_dispose:
  assumes "liveKernelsFor u s = [k0]" and "getInternal u s = Some (o0, k0)"
  shows "liveKernelsFor u (disposeOldKernel u s) = []"
proof -
  have "liveKernelsFor u (disposeOldKernel u s) = filter (\<lambda>k. k \<noteq> k0) (liveKernelsFor u s)"
    using assms(2)
    by (auto simp: liveKernelsFor_def disposeOldKernel_def getInternal_def
          split: option.splits intro: filter_cong)
  then show ?thesis using assms(1) by simp
qed

lemma live_after_create:
  assumes "liveKernelsFor u s1 = []" and "kernels s' = kernels s1 @ [x]" and "kernel_uri x = u"
    and "disposedKernels s' = disposedKernels s1" and "length (kernels s1) \<notin> disposedKernels s1"
  shows "liveKernelsFor u s' = [length (kernels s1)]"
proof -
  have "filter (\<lambda>k. kernel_uri ((kernels s1 @ [x]) ! k) = u \<and> k \<notin> disposedKernels s1) [0..<length (kernels s1)]
        = filter (\<lambda>k. kernel_uri (kernels s1 ! k) = u \<and> k \<notin> disposedKernels s1) [0..<length (kernels s1)]"
    by (rule filter_cong) (auto simp: nth_append)
  then show ?thesis using assms by (simp add: liveKernelsFor_def)
qed

lemma findNotebook_uri: "findNotebook u s = Some nb \<Longrightarrow> nb_uri nb = u"
  by (auto simp: findNotebook_def find_Some_iff)


lemma findNotebook_other:
  "findNotebook u s = Some nb \<Longrightarrow> findNotebook u' s = Some nb' \<Longrightarrow> u' \<noteq> u \<Longrightarrow> nb' \<noteq> nb"
  using findNotebook_uri by blast

lemma getInternal_disposeOldKernel_other:
  assumes "u' \<noteq> u"
  shows "getInternal u' (disposeOldKernel u s) = getInternal u' s"
proof (cases "findNotebook u s")
  case None
  then show ?thesis using assms
    by (simp add: getInternal_def disposeOldKernel_def findNotebook_def split: option.splits)
next
  case (Some nb)
  show ?thesis
  proof (cases "findNotebook u' s")
    case None
    with Some show ?thesis
      by (simp add: getInternal_def disposeOldKernel_def findNotebook_def split: option.splits)
  next
    case (Some nb')
    with \<open>findNotebook u s = Some nb\<close> findNotebook_other[OF \<open>findNotebook u s = Some nb\<close> Some assms]
    show ?thesis
      by (simp add: getInternal_def disposeOldKernel_def findNotebook_def split: option.splits)
  qed
qed


lemma kernels_disposeOldKernel [simp]: "kernels (disposeOldKernel u s) = kernels s"
  by (simp add: disposeOldKernel_def split: option.splits)

lemma notebookDocuments_disposeOldKernel [simp]:
  "notebookDocuments (disposeOldKernel u s) = notebookDocuments s"
  by (simp add: disposeOldKernel_def split: option.splits)

lemma disposedKernels_disposeOldKernel:
  "disposedKernels (disposeOldKernel u s) =
     (case get_kernel u s of Some k0 \<Rightarrow> insert k0 (disposedKernels s) | None \<Rightarrow> disposedKernels s)"
  by (auto simp: disposeOldKernel_def get_kernel_def getInternal_def split: option.splits)

lemma getOrCreate_not_mustCreate:
  "\<not> mustCreate u opts s \<Longrightarrow> \<exists>k. getOrCreate iwv u opts s = (k, s) \<and> get_kernel u s = Some k"
  by (auto simp: mustCreate_def getOrCreate_def get_kernel_def split: option.splits)

lemma getOrCreate_mustCreate:
  assumes "mustCreate u opts s"
  shows "fst (getOrCreate iwv u opts s) = length (kernels s)"
    and "\<exists>x. kernels (snd (getOrCreate iwv u opts s)) = kernels s @ [x] \<and> kernel_uri x = u"
    and "disposedKernels (snd (getOrCreate iwv u opts s)) = disposedKernels (disposeOldKernel u s)"
    and "getInternal u' (snd (getOrCreate iwv u opts s)) =
           (if u' = u then Some (opts, length (kernels s)) else getInternal u' (disposeOldKernel u s))"
proof -
  have sel: "(case (case getInternal u s of
                 Some (o', k') \<Rightarrow> if metadata_id (metadata o') = metadata_id (metadata opts) then Some k' else None
               | None \<Rightarrow> None) of Some k' \<Rightarrow> A k' | None \<Rightarrow> B) = B" for A B
    using assms by (auto simp: mustCreate_def split: option.splits)
  show "fst (getOrCreate iwv u opts s) = length (kernels s)"
    by (simp add: getOrCreate_def sel Let_def)
  show "\<exists>x. kernels (snd (getOrCreate iwv u opts s)) = kernels s @ [x] \<and> kernel_uri x = u"
    by (cases "findNotebook u s")
       (simp_all add: getOrCreate_def sel Let_def deleteMappingIfKernelIsDisposed_def)
  show "disposedKernels (snd (getOrCreate iwv u opts s)) = disposedKernels (disposeOldKernel u s)"
    by (cases "findNotebook u s")
       (simp_all add: getOrCreate_def sel Let_def deleteMappingIfKernelIsDisposed_def)
  show "getInternal u' (snd (getOrCreate iwv u opts s)) =
           (if u' = u then Some (opts, length (kernels s)) else getInternal u' (disposeOldKernel u s))"
  proof (cases "findNotebook u s")
    case None
    have "snd (getOrCreate iwv u opts s) =
            (disposeOldKernel u s)
              \<lparr> kernels := kernels s @
                   [\<lparr> kernel_uri = u, kernel_resourceUri = Some u,
                      kernelConnectionMetadata = metadata opts,
                      waitForIdleTimeout = jupyterLaunchTimeout (disposeOldKernel u s) (Some u),
                      kernel_controller = controller opts \<rparr>],
                trace := trace (disposeOldKernel u s) @ [KernelConstructed (length (kernels s)),
                            KernelRecorded u (length (kernels s))],
                asyncDisposables := asyncDisposables (disposeOldKernel u s) @ [length (kernels s)],
                kernelsByUri := (kernelsByUri (disposeOldKernel u s))(u \<mapsto> (opts, length (kernels s))),
                disposalWatches := disposalWatches (disposeOldKernel u s) @ [(u, length (kernels s))] \<rparr>"
      using None by (simp add: getOrCreate_def sel Let_def deleteMappingIfKernelIsDisposed_def)
    then show ?thesis using None
      by (simp add: getInternal_def findNotebook_def split: option.splits)
  next
    case (Some nb)
    have eq: "snd (getOrCreate iwv u opts s) =
            (disposeOldKernel u s)
              \<lparr> kernels := kernels s @
                   [\<lparr> kernel_uri = u,
                      kernel_resourceUri = (if notebookType nb = iwv then resourceUri opts else Some u),
                      kernelConnectionMetadata = metadata opts,
                      waitForIdleTimeout = jupyterLaunchTimeout (disposeOldKernel u s)
                          (if notebookType nb = iwv then resourceUri opts else Some u),
                      kernel_controller = controller opts \<rparr>],
                trace := trace (disposeOldKernel u s) @ [KernelConstructed (length (kernels s)),
                            KernelRecorded u (length (kernels s))],
                asyncDisposables := asyncDisposables (disposeOldKernel u s) @ [length (kernels s)],
                kernelsByNotebook := (kernelsByNotebook (disposeOldKernel u s))(nb \<mapsto> (opts, length (kernels s))),
                disposalWatches := disposalWatches (disposeOldKernel u s) @ [(u, length (kernels s))] \<rparr>"
      using Some by (simp add: getOrCreate_def sel Let_def deleteMappingIfKernelIsDisposed_def)
    show ?thesis
    proof (cases "u' = u")
      case True
      with Some eq show ?thesis by (simp add: getInternal_def findNotebook_def split: option.splits)
    next
      case False
      show ?thesis
      proof (cases "findNotebook u' s")
        case None
        with eq False show ?thesis by (simp add: getInternal_def findNotebook_def split: option.splits)
      next
        case (Some nb')
        from findNotebook_other[OF \<open>findNotebook u s = Some nb\<close> Some False]
        have "nb' \<noteq> nb" .
        with eq False Some show ?thesis by (simp add: getInternal_def findNotebook_def split: option.splits)
      qed
    qed
  qed
qed


lemma live_extend:
  assumes "kernels s' = kernels s @ [x]" and "kernel_uri x = u"
    and "disposedKernels s \<subseteq> disposedKernels s'"
  shows "liveKernelsFor u' s' =
           filter (\<lambda>k. k \<notin> disposedKernels s') (liveKernelsFor u' s)
           @ (if u' = u \<and> length (kernels s) \<notin> disposedKernels s' then [length (kernels s)] else [])"
proof -
  have "filter (\<lambda>k. kernel_uri ((kernels s @ [x]) ! k) = u' \<and> k \<notin> disposedKernels s') [0..<length (kernels s)]
        = filter (\<lambda>k. k \<notin> disposedKernels s')
            (filter (\<lambda>k. kernel_uri (kernels s ! k) = u' \<and> k \<notin> disposedKernels s) [0..<length (kernels s)])"
    using assms(3) by (auto simp: nth_append intro: filter_cong)
  then show ?thesis using assms(1,2) by (auto simp: liveKernelsFor_def)
qed

lemma live_member:
  "k \<in> set (liveKernelsFor u s) \<longleftrightarrow>
     k < length (kernels s) \<and> kernel_uri (kernels s ! k) = u \<and> k \<notin> disposedKernels s"
  by (auto simp: liveKernelsFor_def)

lemma getOrCreate_keeps_invariant:
  assumes inv: "oneLiveKernelPerIdentity s"
  shows "oneLiveKernelPerIdentity (snd (getOrCreate iwv u opts s))"
proof (cases "mustCreate u opts s")
  case False
  from getOrCreate_not_mustCreate[OF False, of iwv] inv show ?thesis by auto
next
  case True
  let ?s' = "snd (getOrCreate iwv u opts s)"
  let ?n = "length (kernels s)"
  note c = getOrCreate_mustCreate[OF True, where iwv = iwv]
  from inv have wf: "\<forall>r \<in> disposedKernels s. r < ?n"
    and live: "\<And>v. liveKernelsFor v s = (case get_kernel v s of Some k \<Rightarrow> [k] | None \<Rightarrow> [])"
    by (simp_all add: oneLiveKernelPerIdentity_def)
  from c(2) obtain x where x: "kernels ?s' = kernels s @ [x]" "kernel_uri x = u" by blast
  have d: "disposedKernels ?s' =
             (case get_kernel u s of Some k0 \<Rightarrow> insert k0 (disposedKernels s) | None \<Rightarrow> disposedKernels s)"
    using c(3) by (simp add: disposedKernels_disposeOldKernel)
  have sub: "disposedKernels s \<subseteq> disposedKernels ?s'"
    using d by (auto split: option.splits)
  have old: "get_kernel u s = Some k0 \<Longrightarrow> k0 < ?n \<and> kernel_uri (kernels s ! k0) = u" for k0
    using live[of u] live_member[of k0 u s] by simp
  have fresh: "?n \<notin> disposedKernels ?s'"
    using d wf old by (auto split: option.splits)
  have g: "get_kernel v ?s' = (if v = u then Some ?n else get_kernel v s)" for v
    using c(4)[where u' = v] getInternal_disposeOldKernel_other[of v u s] by (simp add: get_kernel_def)
  have 1: "\<forall>r \<in> disposedKernels ?s'. r < length (kernels ?s')"
    using d wf old x(1) by (auto split: option.splits simp: less_Suc_eq)
  have 2: "liveKernelsFor v ?s' = (case get_kernel v ?s' of Some k \<Rightarrow> [k] | None \<Rightarrow> [])" for v
  proof (cases "v = u")
    case True
    have "filter (\<lambda>k. k \<notin> disposedKernels ?s') (liveKernelsFor u s) = []"
      using live[of u] d by (auto split: option.splits)
    then show ?thesis using True live_extend[OF x sub, of u] fresh g by simp
  next
    case False
    have "k \<in> set (liveKernelsFor v s) \<Longrightarrow> k \<notin> disposedKernels ?s'" for k
      using d old False live_member[of k v s] by (auto split: option.splits)
    then have "filter (\<lambda>k. k \<notin> disposedKernels ?s') (liveKernelsFor v s) = liveKernelsFor v s"
      by (simp add: filter_id_conv)
    then show ?thesis using False live_extend[OF x sub, of v] g live[of v] by simp
  qed
  show ?thesis using 1 2 by (simp add: oneLiveKernelPerIdentity_def)
qed

lemma getOrCreates_keep_invariant:
  "oneLiveKernelPerIdentity s \<Longrightarrow> oneLiveKernelPerIdentity (getOrCreates iwv calls s)"
proof (induction calls arbitrary: s)
  case Nil
  then show ?case by simp
next
  case (Cons call calls)
  obtain u opts where "call = (u, opts)" by (cases call)
  with Cons.IH[OF getOrCreate_keeps_invariant[OF Cons.prems, of iwv u opts]] show ?case by simp
qed

lemma invariant_initially:
  "kernels s = [] \<Longrightarrow> disposedKernels s = {} \<Longrightarrow> kernelsByNotebook s = (\<lambda>_. None) \<Longrightarrow>
   kernelsByUri s = (\<lambda>_. None) \<Longrightarrow> oneLiveKernelPerIdentity s"
  by (simp add: oneLiveKernelPerIdentity_def liveKernelsFor_def get_kernel_def getInternal_def
        split: option.splits)

lemma providerWithK1_eq:
  "providerWithK1 =
     newKernelProvider
       \<lparr> kernelsByUri := (\<lambda>_. None)(''file:///d.ipynb'' \<mapsto> (options1, 0)),
         kernels := [\<lparr> kernel_uri = ''file:///d.ipynb'', kernel_resourceUri = Some ''file:///d.ipynb'',
                       kernelConnectionMetadata = StartUsingLocalKernelSpec ''python3'',
                       waitForIdleTimeout = 60, kernel_controller = ''c1'' \<rparr>],
         asyncDisposables := [0],
         disposalWatches := [(''file:///d.ipynb'', 0)],
         trace := [KernelConstructed 0, KernelRecorded ''file:///d.ipynb'' 0] \<rparr>"
  by (simp add: providerWithK1_def getOrCreate_def getInternal_def findNotebook_def
        disposeOldKernel_def deleteMappingIfKernelIsDisposed_def newKernelProvider_def options1_def Let_def)

text \<open>
  Claim C2. When \<^verbatim>\<open>getOrCreate(uri, options)\<close> finds a kernel \<open>k0\<close> for the uri
  whose connection-metadata id differs from that of \<open>options\<close>, the old kernel
  is disposed before the new kernel \<open>k\<close> is constructed, and the new kernel is
  recorded after that. In a provider where every identity has at most one live
  kernel, the recorded one, the identity has the live kernel \<open>k0\<close> before the
  call, no live kernel and no mapping between the disposal and the
  construction, and the live kernel \<open>k\<close> alone afterwards, and the same holds
  again of every identity after the call. A following \<^verbatim>\<open>get\<close> for the uri
  returns the new kernel, which is not the old one. The hypothesis on the
  provider holds of a provider without kernels and after any calls of
  \<^verbatim>\<open>getOrCreate\<close> on it (\<open>invariant_initially\<close>, \<open>getOrCreates_keep_invariant\<close>).
\<close>

theorem getOrCreate_switches_kernel:
  assumes "oneLiveKernelPerIdentity s"
    and "getInternal u s = Some (o0, k0)"
    and "metadata_id (metadata o0) \<noteq> metadata_id (metadata opts)"
    and "getOrCreate iwv u opts s = (k, s')"
  shows "trace s' = trace s @ [KernelDisposed k0, KernelConstructed k, KernelRecorded u k]
       \<and> liveKernelsFor u s = [k0]
       \<and> get_kernel u (disposeOldKernel u s) = None
       \<and> liveKernelsFor u (disposeOldKernel u s) = []
       \<and> liveKernelsFor u s' = [k]
       \<and> k \<noteq> k0
       \<and> k0 \<in> disposedKernels s' \<and> k \<notin> disposedKernels s'
       \<and> get_kernel u s' = Some k
       \<and> oneLiveKernelPerIdentity s'"
proof -
  have live: "liveKernelsFor u s = [k0]"
    using assms(1,2) by (simp add: oneLiveKernelPerIdentity_def get_kernel_def)
  have wf: "\<forall>r \<in> disposedKernels s. r < length (kernels s)"
    using assms(1) by (simp add: oneLiveKernelPerIdentity_def)
  note c = getOrCreate_create[OF assms(2) assms(3) assms(4)]
  note d = disposeOldKernel_facts[OF assms(2)]
  have k0lt: "k0 < length (kernels s)"
    using live live_member[of k0 u s] by simp
  have fresh: "length (kernels s) \<notin> insert k0 (disposedKernels s)"
    using wf k0lt by auto
  from c(4) obtain x where x: "kernels s' = kernels s @ [x]" "kernel_uri x = u" by blast
  have l1: "liveKernelsFor u (disposeOldKernel u s) = []"
    by (rule live_after_dispose[OF live assms(2)])
  have l2: "liveKernelsFor u s' = [k]"
    using live_after_create[OF l1, of s' x] x c(1,3) d fresh by simp
  have g: "get_kernel u s' = Some k"
    using getOrCreate_records[OF assms(4)] by (auto simp: get_kernel_def)
  have inv: "oneLiveKernelPerIdentity s'"
    using getOrCreate_keeps_invariant[OF assms(1), of iwv u opts] assms(4) by simp
  show ?thesis
    using c d live l1 l2 g k0lt fresh inv by (simp add: get_kernel_def getInternal_disposeOldKernel)
qed

theorem getOrCreate_switches_kernel_witness:
  "oneLiveKernelPerIdentity providerWithK1
   \<and> getInternal ''file:///d.ipynb'' providerWithK1 = Some (options1, 0)
   \<and> metadata_id (metadata options1) \<noteq> metadata_id (metadata options2)
   \<and> fst (getOrCreate ''interactive'' ''file:///d.ipynb'' options2 providerWithK1) = 1
   \<and> trace (snd (getOrCreate ''interactive'' ''file:///d.ipynb'' options2 providerWithK1)) =
        [KernelConstructed 0, KernelRecorded ''file:///d.ipynb'' 0,
         KernelDisposed 0, KernelConstructed 1, KernelRecorded ''file:///d.ipynb'' 1]
   \<and> get_kernel ''file:///d.ipynb'' (snd (getOrCreate ''interactive'' ''file:///d.ipynb'' options2 providerWithK1)) = Some 1
   \<and> liveKernelsFor ''file:///d.ipynb'' (snd (getOrCreate ''interactive'' ''file:///d.ipynb'' options2 providerWithK1)) = [1]"
proof -
  let ?u = "''file:///d.ipynb''"
  let ?r = "getOrCreate ''interactive'' ?u options2 providerWithK1"
  have h0: "oneLiveKernelPerIdentity providerWithK1"
    unfolding providerWithK1_def
    by (rule getOrCreate_keeps_invariant, rule invariant_initially)
       (simp_all add: newKernelProvider_def)
  have h1: "getInternal ?u providerWithK1 = Some (options1, 0)"
    by (simp add: providerWithK1_eq getInternal_def findNotebook_def newKernelProvider_def)
  have h2: "metadata_id (metadata options1) \<noteq> metadata_id (metadata options2)"
    by (simp add: options1_def options2_def)
  have h5: "?r = (fst ?r, snd ?r)" by simp
  have k: "fst ?r = 1"
    using getOrCreate_create(1)[OF h1 h2 h5] by (simp add: providerWithK1_eq)
  have t: "trace providerWithK1 = [KernelConstructed 0, KernelRecorded ?u 0]"
    by (simp add: providerWithK1_eq)
  show ?thesis
    using getOrCreate_switches_kernel [OF h0 h1 h2 h5] h0 h1 h2 k t by simp
qed

text \<open>
  Claim C3. Two calls of \<^verbatim>\<open>getOrCreate\<close> for the same document identity, one
  right after the other, with options of the same connection-metadata id:
  the second returns the kernel the first returned and leaves the provider as
  it was, so it creates nothing.
\<close>

theorem getOrCreate_idempotent:
  assumes "getOrCreate iwv u opts s = (k, s')"
    and "metadata_id (metadata opts2) = metadata_id (metadata opts)"
  shows "getOrCreate iwv u opts2 s' = (k, s')"
proof -
  from getOrCreate_records[OF assms(1)] obtain o' where
    "getInternal u s' = Some (o', k)" "metadata_id (metadata o') = metadata_id (metadata opts)"
    by blast
  then show ?thesis using assms(2) by (simp add: getOrCreate_reuse)
qed

theorem getOrCreate_idempotent_witness:
  "getOrCreate ''interactive'' ''file:///d.ipynb'' options1 newKernelProvider = (0, providerWithK1)
   \<and> metadata_id (metadata (options1\<lparr>controller := ''other''\<rparr>)) = metadata_id (metadata options1)
   \<and> getOrCreate ''interactive'' ''file:///d.ipynb'' (options1\<lparr>controller := ''other''\<rparr>) providerWithK1
       = (0, providerWithK1)"
proof -
  have h1: "getOrCreate ''interactive'' ''file:///d.ipynb'' options1 newKernelProvider = (0, providerWithK1)"
    by (simp add: providerWithK1_def getOrCreate_def getInternal_def findNotebook_def
          disposeOldKernel_def deleteMappingIfKernelIsDisposed_def newKernelProvider_def Let_def)
  have h2: "metadata_id (metadata (options1\<lparr>controller := ''other''\<rparr>)) = metadata_id (metadata options1)"
    by simp
  show ?thesis using getOrCreate_idempotent [OF h1 h2] h1 h2 by simp
qed

section \<open>Sessions that fail to connect\<close>




section \<open>The insecure-connection check\<close>

lemma secureConnectionChecks_allowed:
  "userAllowsInsecureConnections st \<Longrightarrow> secureConnectionChecks later st = st"
  by (induction later arbitrary: st) (auto simp: secureConnectionCheck_def)

lemma trustedStore_eq:
  "trustedStore =
     \<lparr> userAllowsInsecureConnections = False,
       secureServers = (\<lambda>_. None)(''http://host:8888/'' \<mapsto> True),
       warningsShown = 1 \<rparr>"
  by (simp add: trustedStore_def secureConnectionCheck_def insecureServerWarningPrompt_def
        exampleConnection_def newSecurityStore_def Let_def)

text \<open>
  Claim C5, as stated, fails in its clause on the second connect: the answer is
  cached by base URL, not by host. After Yes for \<^verbatim>\<open>http://host:8888/\<close>, a connect
  to \<^verbatim>\<open>http://host:9999/\<close>, the same host, shows a second warning.
\<close>

theorem secureConnectionCheck_same_host_counterexample:
  "hostName otherPortConnection = hostName exampleConnection
   \<and> secureConnectionCheck exampleConnection BannerLabelYes newSecurityStore = (None, trustedStore)
   \<and> warningsShown trustedStore = 1
   \<and> warningsShown (snd (secureConnectionCheck otherPortConnection BannerLabelYes trustedStore)) = 2"
  by (simp add: trustedStore_eq otherPortConnection_def)
     (simp add: secureConnectionCheck_def insecureServerWarningPrompt_def
        exampleConnection_def newSecurityStore_def Let_def)

text \<open>
  Claim C5, amended. A first connection to a non-local, non-HTTPS server with
  token \<^verbatim>\<open>"null"\<close>, with no decision stored for its base URL and the global
  opt-in off, shows exactly one warning, whatever the answer. With the answer
  No the check fails with \<^verbatim>\<open>insecureSessionDenied\<close>. With Yes it passes, and a
  second connect to the same base URL passes with no warning and leaves the
  store as it is. After "do not show again" no later check shows a warning.
\<close>

theorem secureConnectionCheck_prompts_once_per_baseUrl:
  assumes "\<not> userAllowsInsecureConnections st"
    and "\<not> localLaunch c" and "\<not> prefix ''https'' (baseUrl c)" and "token c = ''null''"
    and "secureServers st (baseUrl c) = None"
    and "baseUrl c2 = baseUrl c"
  shows "warningsShown (snd (secureConnectionCheck c response st)) = Suc (warningsShown st)
       \<and> fst (secureConnectionCheck c BannerLabelNo st) = Some InsecureSessionDenied
       \<and> fst (secureConnectionCheck c BannerLabelYes st) = None
       \<and> secureConnectionCheck c2 response2 (snd (secureConnectionCheck c BannerLabelYes st))
           = (None, snd (secureConnectionCheck c BannerLabelYes st))
       \<and> fst (secureConnectionCheck c DoNotShowAgain st) = None
       \<and> warningsShown (secureConnectionChecks later (snd (secureConnectionCheck c DoNotShowAgain st)))
           = Suc (warningsShown st)"
proof -
  have 1: "warningsShown (snd (secureConnectionCheck c r st)) = Suc (warningsShown st)" for r
    using assms
    by (cases r) (simp_all add: secureConnectionCheck_def insecureServerWarningPrompt_def Let_def)
  have 2: "fst (secureConnectionCheck c BannerLabelNo st) = Some InsecureSessionDenied"
    using assms by (simp add: secureConnectionCheck_def insecureServerWarningPrompt_def Let_def)
  have 3: "fst (secureConnectionCheck c BannerLabelYes st) = None"
    using assms by (simp add: secureConnectionCheck_def insecureServerWarningPrompt_def Let_def)
  have 4: "secureConnectionCheck c2 response2 (snd (secureConnectionCheck c BannerLabelYes st))
           = (None, snd (secureConnectionCheck c BannerLabelYes st))"
    using assms by (simp add: secureConnectionCheck_def insecureServerWarningPrompt_def Let_def)
  have 5: "fst (secureConnectionCheck c DoNotShowAgain st) = None"
    using assms by (simp add: secureConnectionCheck_def insecureServerWarningPrompt_def Let_def)
  have a: "userAllowsInsecureConnections (snd (secureConnectionCheck c DoNotShowAgain st))"
    using assms by (simp add: secureConnectionCheck_def insecureServerWarningPrompt_def Let_def)
  have 6: "warningsShown (secureConnectionChecks later (snd (secureConnectionCheck c DoNotShowAgain st)))
           = Suc (warningsShown st)"
    using secureConnectionChecks_allowed[OF a] 1[of DoNotShowAgain] by simp
  show ?thesis using 1[of response] 2 3 4 5 6 by blast
qed

theorem secureConnectionCheck_prompts_once_per_baseUrl_witness:
  "\<not> userAllowsInsecureConnections newSecurityStore
   \<and> \<not> localLaunch exampleConnection \<and> \<not> prefix ''https'' (baseUrl exampleConnection)
   \<and> token exampleConnection = ''null''
   \<and> secureServers newSecurityStore (baseUrl exampleConnection) = None
   \<and> warningsShown (snd (secureConnectionCheck exampleConnection BannerLabelNo newSecurityStore)) = 1
   \<and> fst (secureConnectionCheck exampleConnection BannerLabelNo newSecurityStore) = Some InsecureSessionDenied
   \<and> secureConnectionCheck exampleConnection BannerLabelNo trustedStore = (None, trustedStore)
   \<and> warningsShown (secureConnectionChecks [(otherPortConnection, BannerLabelNo)]
        (snd (secureConnectionCheck exampleConnection DoNotShowAgain newSecurityStore))) = 1"
proof -
  have h: "\<not> userAllowsInsecureConnections newSecurityStore"
    "\<not> localLaunch exampleConnection" "\<not> prefix ''https'' (baseUrl exampleConnection)"
    "token exampleConnection = ''null''"
    "secureServers newSecurityStore (baseUrl exampleConnection) = None"
    by (simp_all add: newSecurityStore_def exampleConnection_def)
  have z: "warningsShown newSecurityStore = 0" by (simp add: newSecurityStore_def)
  show ?thesis
    using secureConnectionCheck_prompts_once_per_baseUrl
      [OF h refl, of BannerLabelNo BannerLabelNo "[(otherPortConnection, BannerLabelNo)]"] h z
    by (simp add: trustedStore_def)
qed

text \<open>
  Claim C10. For a connection to a non-local server over HTTP, with the global
  opt-in off: a warning is shown exactly when the token is the string
  \<^verbatim>\<open>"null"\<close> and no decision is stored for the base URL; whenever the token is
  not \<^verbatim>\<open>"null"\<close> the check passes at once and leaves the store alone. With the
  empty string as token it does so, for any answer. Yet the condition of the
  password path holds for the empty string exactly as for \<^verbatim>\<open>"null"\<close>, and with
  the empty token \<^verbatim>\<open>getServerConnectSettings\<close> reaches that path without a
  warning.
\<close>

theorem secureConnectionCheck_only_null_token:
  assumes "\<not> userAllowsInsecureConnections st"
    and "\<not> localLaunch c" and "\<not> prefix ''https'' (baseUrl c)"
  shows "(warningsShown (snd (secureConnectionCheck c response st)) \<noteq> warningsShown st)
           = (token c = ''null'' \<and> secureServers st (baseUrl c) = None)
       \<and> (secureConnectionCheck c response st = (None, st) \<or> token c = ''null'')
       \<and> secureConnectionCheck (c\<lparr>token := []\<rparr>) response st = (None, st)
       \<and> noTokenSpecified (c\<lparr>token := []\<rparr>) = (getAuthHeader c = None)
       \<and> noTokenSpecified (c\<lparr>token := ''null''\<rparr>) = (getAuthHeader c = None)
       \<and> getServerConnectSettings True response passwordConnectionInfo allowUnauthorized
            (c\<lparr>token := [], getAuthHeader := None\<rparr>) st = (Inl PasswordRequestNotAllowed, st)"
proof -
  have 1: "(warningsShown (snd (secureConnectionCheck c response st)) \<noteq> warningsShown st)
           = (token c = ''null'' \<and> secureServers st (baseUrl c) = None)"
    using assms
    by (cases response)
       (auto simp: secureConnectionCheck_def insecureServerWarningPrompt_def Let_def split: option.splits)
  have 2: "secureConnectionCheck c response st = (None, st) \<or> token c = ''null''"
    by (simp add: secureConnectionCheck_def)
  have 3: "secureConnectionCheck (c\<lparr>token := []\<rparr>) response st = (None, st)"
    by (simp add: secureConnectionCheck_def)
  have 4: "noTokenSpecified (c\<lparr>token := []\<rparr>) = (getAuthHeader c = None)"
    "noTokenSpecified (c\<lparr>token := ''null''\<rparr>) = (getAuthHeader c = None)"
    by (simp_all add: noTokenSpecified_def)
  have 5: "getServerConnectSettings True response passwordConnectionInfo allowUnauthorized
            (c\<lparr>token := [], getAuthHeader := None\<rparr>) st = (Inl PasswordRequestNotAllowed, st)"
    by (simp add: getServerConnectSettings_def secureConnectionCheck_def noTokenSpecified_def Let_def)
  show ?thesis using 1 2 3 4 5 by blast
qed

theorem secureConnectionCheck_only_null_token_witness:
  "\<not> userAllowsInsecureConnections newSecurityStore
   \<and> \<not> localLaunch exampleConnection \<and> \<not> prefix ''https'' (baseUrl exampleConnection)
   \<and> warningsShown (snd (secureConnectionCheck exampleConnection BannerLabelYes newSecurityStore)) = 1
   \<and> secureConnectionCheck (exampleConnection\<lparr>token := []\<rparr>) BannerLabelYes newSecurityStore
        = (None, newSecurityStore)
   \<and> noTokenSpecified (exampleConnection\<lparr>token := []\<rparr>)
   \<and> noTokenSpecified (exampleConnection\<lparr>token := ''null''\<rparr>)"
proof -
  have h: "\<not> userAllowsInsecureConnections newSecurityStore"
    "\<not> localLaunch exampleConnection" "\<not> prefix ''https'' (baseUrl exampleConnection)"
    by (simp_all add: newSecurityStore_def exampleConnection_def)
  have g: "getAuthHeader exampleConnection = None" by (simp add: exampleConnection_def)
  have w: "warningsShown (snd (secureConnectionCheck exampleConnection BannerLabelYes newSecurityStore)) = 1"
    using trustedStore_eq by (simp add: trustedStore_def)
  show ?thesis
    using secureConnectionCheck_only_null_token [OF h, of BannerLabelYes] h g w by simp
qed

section \<open>Kernel specs fall back to a default\<close>

text \<open>
  Claim C6. On an initialized manager whose specs manager holds no kernel spec
  when \<^verbatim>\<open>getKernelSpecs\<close> is called (no non-empty list was retrieved before),
  and whose refresh is reached and leaves it with no kernel spec, the result
  is exactly the one spec \<^verbatim>\<open>createInterpreterKernelSpec()\<close> gives, never an
  empty sequence.
\<close>

theorem getKernelSpecs_default:
  assumes "connInfo m \<noteq> None" and "sessionManager m \<noteq> None" and "contentsManager m \<noteq> None"
    and "specsManager m = Some sm"
    and "kernelspecsOr [] (Some sm) = []"
    and "refreshSpecs sm = Inr sm'"
    and "kernelspecsOr [] (Some sm') = []"
  shows "fst (getKernelSpecs createInterpreterKernelSpec None refreshSpecs m) = Inr [createInterpreterKernelSpec]"
  using assms by (simp add: getKernelSpecs_def Let_def kernelspecsOr_def split: option.splits if_splits)

theorem getKernelSpecs_default_witness:
  "connInfo exampleManager \<noteq> None \<and> sessionManager exampleManager \<noteq> None
   \<and> contentsManager exampleManager \<noteq> None
   \<and> specsManager exampleManager = Some \<lparr> specs = Some [] \<rparr>
   \<and> kernelspecsOr [] (Some \<lparr> specs = Some [] \<rparr>) = []
   \<and> fst (getKernelSpecs exampleDefaultSpec None (\<lambda>sm. Inr sm) exampleManager) = Inr [exampleDefaultSpec]"
proof -
  have h: "connInfo exampleManager \<noteq> None" "sessionManager exampleManager \<noteq> None"
    "contentsManager exampleManager \<noteq> None"
    "specsManager exampleManager = Some \<lparr> specs = Some [] \<rparr>"
    "kernelspecsOr [] (Some \<lparr> specs = Some [] \<rparr>) = []"
    by (simp_all add: exampleManager_def kernelspecsOr_def)
  show ?thesis
    using h getKernelSpecs_default [where m = exampleManager and sm = "\<lparr> specs = Some [] \<rparr>"
        and sm' = "\<lparr> specs = Some [] \<rparr>" and refreshSpecs = "\<lambda>sm. Inr sm"
        and createInterpreterKernelSpec = exampleDefaultSpec]
    by simp
qed

section \<open>Running kernels are deduplicated\<close>

lemma toJupyterKernel_id [simp]: "kernel_id (toJupyterKernel rt m) = km_id m"
  by (simp add: toJupyterKernel_def)

lemma filterDuplicates_dedup:
  "filterDuplicates dup xs = dedupKeepFirst (filter (\<lambda>x. kernel_id x \<notin> dup) xs)"
proof (induction xs arbitrary: dup)
  case Nil
  then show ?case by simp
next
  case (Cons x xs)
  have "filter (\<lambda>y. kernel_id y \<noteq> kernel_id x) (filter (\<lambda>y. kernel_id y \<notin> dup) xs)
        = filter (\<lambda>y. kernel_id y \<notin> insert (kernel_id x) dup) xs"
    by (auto intro: filter_cong)
  with Cons show ?case by simp
qed

lemma dedup_subset: "set (dedupKeepFirst xs) \<subseteq> set xs"
proof (induction xs rule: dedupKeepFirst.induct)
  case 1
  then show ?case by simp
next
  case (2 x xs)
  then show ?case by auto
qed

lemma dedup_distinct: "distinct (map kernel_id (dedupKeepFirst xs))"
proof (induction xs rule: dedupKeepFirst.induct)
  case 1
  then show ?case by simp
next
  case (2 x xs)
  have "kernel_id x \<notin> kernel_id ` set (dedupKeepFirst (filter (\<lambda>y. kernel_id y \<noteq> kernel_id x) xs))"
    using dedup_subset[of "filter (\<lambda>y. kernel_id y \<noteq> kernel_id x) xs"] by auto
  with 2 show ?case by simp
qed

lemma dedup_ids: "kernel_id ` set (dedupKeepFirst xs) = kernel_id ` set xs"
proof (induction xs rule: dedupKeepFirst.induct)
  case 1
  then show ?case by simp
next
  case (2 x xs)
  then show ?case by auto
qed

text \<open>
  Claim C9. For every list of running kernel models the server returns,
  \<^verbatim>\<open>getRunningKernels\<close> returns the converted models deduplicated by kernel id,
  the first occurrence of each id kept: the result is the specification's
  \<open>dedupKeepFirst\<close> of the converted list, its ids are pairwise distinct and
  are exactly the ids of the input, and for input ids \<open>[a, a, b]\<close> the result
  has the two ids \<open>a\<close> and \<open>b\<close>, in that order.
\<close>

theorem getRunningKernels_dedup:
  "getRunningKernels rt (Inr models) = Inr (dedupKeepFirst (map (toJupyterKernel rt) models))
   \<and> distinct (map kernel_id (dedupKeepFirst (map (toJupyterKernel rt) models)))
   \<and> kernel_id ` set (dedupKeepFirst (map (toJupyterKernel rt) models)) = km_id ` set models
   \<and> (a \<noteq> b \<and> map km_id models = [a, a, b] \<longrightarrow>
        map kernel_id (dedupKeepFirst (map (toJupyterKernel rt) models)) = [a, b])"
proof -
  have 1: "getRunningKernels rt (Inr models) = Inr (dedupKeepFirst (map (toJupyterKernel rt) models))"
    by (simp add: getRunningKernels_def filterDuplicates_dedup)
  have 3: "kernel_id ` set (dedupKeepFirst (map (toJupyterKernel rt) models)) = km_id ` set models"
    by (simp add: dedup_ids image_image)
  have 4: "a \<noteq> b \<and> map km_id models = [a, a, b] \<longrightarrow>
        map kernel_id (dedupKeepFirst (map (toJupyterKernel rt) models)) = [a, b]"
    by (auto simp: map_eq_Cons_conv)
  show ?thesis using 1 3 4 dedup_distinct by blast
qed

theorem getRunningKernels_dedup_witness:
  "''a'' \<noteq> ''b'' \<and> map km_id exampleModels = [''a'', ''a'', ''b'']
   \<and> getRunningKernels exampleRuntime (Inr exampleModels) =
       Inr [ \<lparr> kernel_id = ''a'', kernel_name = ''python3'', lastActivityTime = Some 0, numberOfConnections = Some 1 \<rparr>,
             \<lparr> kernel_id = ''b'', kernel_name = ''julia'', lastActivityTime = Some 1000, numberOfConnections = Some 0 \<rparr> ]
   \<and> map kernel_id (dedupKeepFirst (map (toJupyterKernel exampleRuntime) exampleModels)) = [''a'', ''b'']"
proof -
  have h: "''a'' \<noteq> ''b'' \<and> map km_id exampleModels = [''a'', ''a'', ''b'']"
    by (simp add: exampleModels_def)
  have e: "dedupKeepFirst (map (toJupyterKernel exampleRuntime) exampleModels) =
       [ \<lparr> kernel_id = ''a'', kernel_name = ''python3'', lastActivityTime = Some 0, numberOfConnections = Some 1 \<rparr>,
         \<lparr> kernel_id = ''b'', kernel_name = ''julia'', lastActivityTime = Some 1000, numberOfConnections = Some 0 \<rparr> ]"
    by (simp add: exampleModels_def exampleRuntime_def toJupyterKernel_def)
  show ?thesis
    using h e getRunningKernels_dedup [of exampleRuntime exampleModels "''a''" "''b''"] by simp
qed

section \<open>Listing remote kernels\<close>

lemma earliest_member: "xs \<noteq> [] \<Longrightarrow> \<exists>e. earliest xs = Some e \<and> e \<in> snd ` set xs"
proof (induction xs rule: earliest.induct)
  case 1
  then show ?case by simp
next
  case (2 t e)
  then show ?case by simp
next
  case (3 t e t' e' rest)
  then show ?case by (cases "t' < t") auto
qed

text \<open>
  Claim C8, as stated, fails. With a Jupyter connection, a manager created and
  \<^verbatim>\<open>getRunningKernels\<close> rejecting, \<^verbatim>\<open>listKernels\<close> disposes the manager and
  rejects with that error; it does not return an empty sequence.
\<close>

theorem listKernels_failure_counterexample:
  "listKernels exampleRuntime exampleKernelId noInterpreter createsManager
     runningKernelsFail noKernelSpecs noRunningSessions {} (Some exampleConnection)
   = (Inl (OtherError ''listRunning failed''), True)"
  by (simp add: listKernels_def exampleConnection_def createsManager_def runningKernelsFail_def
        noKernelSpecs_def noRunningSessions_def)

text \<open>
  Claim C8, amended. For a call of \<^verbatim>\<open>listKernels\<close> with a Jupyter connection:
  if the creation of the session manager fails, the call rejects with that
  error and disposes nothing; if the manager is created and any of
  \<^verbatim>\<open>getRunningKernels\<close>, \<^verbatim>\<open>getKernelSpecs\<close> and \<^verbatim>\<open>getRunningSessions\<close> rejects, the
  call disposes the manager and rejects with one of their errors, the first to
  happen. Whenever the method rejects, its telemetry decorator passes the
  error to \<^verbatim>\<open>sendTelemetryEvent\<close>, in an event marked failed, and the caller still
  gets the rejection, not an empty sequence.
\<close>

theorem listKernels_propagates_failure:
  assumes "conn_type c = ''jupyter''"
  shows "(\<forall>e. create c = Inl e \<longrightarrow>
            listKernels rt getKernelId getInterpreter create runningKernels kernelSpecs runningSessions
              kernelIdsToHide (Some c) = (Inl e, False))
       \<and> (\<forall>m. create c = Inr m
              \<and> rejectionOf (runningKernels m) @ rejectionOf (kernelSpecs m) @ rejectionOf (runningSessions m) \<noteq> []
            \<longrightarrow> (\<exists>e \<in> snd ` set (rejectionOf (runningKernels m) @ rejectionOf (kernelSpecs m)
                                     @ rejectionOf (runningSessions m)).
                   earliest (rejectionOf (runningKernels m) @ rejectionOf (kernelSpecs m)
                               @ rejectionOf (runningSessions m)) = Some e
                   \<and> listKernels rt getKernelId getInterpreter create runningKernels kernelSpecs
                        runningSessions kernelIdsToHide (Some c) = (Inl e, True)))
       \<and> (\<forall>e d. listKernels rt getKernelId getInterpreter create runningKernels kernelSpecs
                    runningSessions kernelIdsToHide (Some c) = (Inl e, d)
            \<longrightarrow> listKernels_decorated eventName elapsedTime timesSeen rt getKernelId getInterpreter
                    create runningKernels kernelSpecs runningSessions kernelIdsToHide (Some c)
                  = ((Inl e, d),
                     \<lparr> event_name = eventName, event_duration = elapsedTime, event_kind = ''remote'',
                       event_firstTime = False, event_failed = True, event_ex = Some e \<rparr>,
                     insert (eventName, ''remote'') timesSeen))"
proof (intro conjI allI impI)
  fix e
  assume "create c = Inl e"
  then show "listKernels rt getKernelId getInterpreter create runningKernels kernelSpecs runningSessions
              kernelIdsToHide (Some c) = (Inl e, False)"
    using assms by (simp add: listKernels_def)
next
  fix m
  let ?rs = "rejectionOf (runningKernels m) @ rejectionOf (kernelSpecs m) @ rejectionOf (runningSessions m)"
  assume a: "create c = Inr m \<and> ?rs \<noteq> []"
  then obtain e where e: "earliest ?rs = Some e" "e \<in> snd ` set ?rs"
    using earliest_member[of ?rs] by blast
  have "listKernels rt getKernelId getInterpreter create runningKernels kernelSpecs runningSessions
          kernelIdsToHide (Some c) = (Inl e, True)"
    using assms a e(1) by (simp add: listKernels_def)
  with e show "\<exists>e \<in> snd ` set ?rs. earliest ?rs = Some e
       \<and> listKernels rt getKernelId getInterpreter create runningKernels kernelSpecs
            runningSessions kernelIdsToHide (Some c) = (Inl e, True)"
    by blast
next
  fix e d
  assume "listKernels rt getKernelId getInterpreter create runningKernels kernelSpecs
            runningSessions kernelIdsToHide (Some c) = (Inl e, d)"
  then show "listKernels_decorated eventName elapsedTime timesSeen rt getKernelId getInterpreter
                    create runningKernels kernelSpecs runningSessions kernelIdsToHide (Some c)
                  = ((Inl e, d),
                     \<lparr> event_name = eventName, event_duration = elapsedTime, event_kind = ''remote'',
                       event_firstTime = False, event_failed = True, event_ex = Some e \<rparr>,
                     insert (eventName, ''remote'') timesSeen)"
    by (simp add: listKernels_decorated_def captureTelemetry_def)
qed

theorem listKernels_propagates_failure_witness:
  "conn_type exampleConnection = ''jupyter''
   \<and> listKernels exampleRuntime exampleKernelId noInterpreter
        (\<lambda>c. Inl InsecureSessionDenied :: error + unit)
        runningKernelsFail noKernelSpecs noRunningSessions {} (Some exampleConnection)
      = (Inl InsecureSessionDenied, False)
   \<and> createsManager exampleConnection = Inr ()
   \<and> rejectionOf (runningKernelsFail ()) @ rejectionOf (noKernelSpecs ()) @ rejectionOf (noRunningSessions ())
        = [(1, OtherError ''listRunning failed'')]
   \<and> (\<exists>e. listKernels exampleRuntime exampleKernelId noInterpreter createsManager
               runningKernelsFail noKernelSpecs noRunningSessions {} (Some exampleConnection)
             = (Inl e, True))
   \<and> listKernels_decorated ''DS_INTERNAL.KERNEL_LISTING_PERF'' 12 {} exampleRuntime exampleKernelId
        noInterpreter createsManager runningKernelsFail noKernelSpecs noRunningSessions {}
        (Some exampleConnection)
      = ((Inl (OtherError ''listRunning failed''), True),
         \<lparr> event_name = ''DS_INTERNAL.KERNEL_LISTING_PERF'', event_duration = 12,
           event_kind = ''remote'', event_firstTime = False, event_failed = True,
           event_ex = Some (OtherError ''listRunning failed'') \<rparr>,
         {(''DS_INTERNAL.KERNEL_LISTING_PERF'', ''remote'')})"
proof -
  have h: "conn_type exampleConnection = ''jupyter''" by (simp add: exampleConnection_def)
  have r: "rejectionOf (runningKernelsFail ()) @ rejectionOf (noKernelSpecs ()) @ rejectionOf (noRunningSessions ())
        = [(1, OtherError ''listRunning failed'')]"
    by (simp add: runningKernelsFail_def noKernelSpecs_def noRunningSessions_def)
  have c: "createsManager exampleConnection = Inr ()" by (simp add: createsManager_def)
  have l: "listKernels exampleRuntime exampleKernelId noInterpreter createsManager
               runningKernelsFail noKernelSpecs noRunningSessions {} (Some exampleConnection)
             = (Inl (OtherError ''listRunning failed''), True)"
    by (simp add: listKernels_def exampleConnection_def createsManager_def runningKernelsFail_def
          noKernelSpecs_def noRunningSessions_def)
  have 1: "listKernels exampleRuntime exampleKernelId noInterpreter
        (\<lambda>c. Inl InsecureSessionDenied :: error + unit)
        runningKernelsFail noKernelSpecs noRunningSessions {} (Some exampleConnection)
      = (Inl InsecureSessionDenied, False)"
    using listKernels_propagates_failure [OF h, where create = "\<lambda>c. Inl InsecureSessionDenied :: error + unit"]
    by simp
  have 2: "\<exists>e. listKernels exampleRuntime exampleKernelId noInterpreter createsManager
               runningKernelsFail noKernelSpecs noRunningSessions {} (Some exampleConnection)
             = (Inl e, True)"
    using l by simp
  have 3: "listKernels_decorated ''DS_INTERNAL.KERNEL_LISTING_PERF'' 12 {} exampleRuntime exampleKernelId
        noInterpreter createsManager runningKernelsFail noKernelSpecs noRunningSessions {}
        (Some exampleConnection)
      = ((Inl (OtherError ''listRunning failed''), True),
         \<lparr> event_name = ''DS_INTERNAL.KERNEL_LISTING_PERF'', event_duration = 12,
           event_kind = ''remote'', event_firstTime = False, event_failed = True,
           event_ex = Some (OtherError ''listRunning failed'') \<rparr>,
         {(''DS_INTERNAL.KERNEL_LISTING_PERF'', ''remote'')})"
    using listKernels_propagates_failure [OF h, where create = createsManager
        and runningKernels = runningKernelsFail and kernelSpecs = noKernelSpecs
        and runningSessions = noRunningSessions and rt = exampleRuntime
        and getKernelId = exampleKernelId and getInterpreter = noInterpreter
        and kernelIdsToHide = "{}" and eventName = "''DS_INTERNAL.KERNEL_LISTING_PERF''"
        and elapsedTime = 12 and timesSeen = "{}", THEN conjunct2, THEN conjunct2, rule_format, OF l]
    by simp
  show ?thesis using h 1 2 3 c r by simp
qed

end
